theory Spec2Isabelle
  imports Main "HOL-Library.Sublist" "HOL-Library.AList"
begin

section \<open>Values, errors and effects\<close>

text \<open>
  What \<^verbatim>\<open>bencode.bread\<close> can return: text strings, byte strings that are not UTF-8,
  integers, lists and dictionaries. A dictionary is an association list: Python keeps
  the insertion order, and \<open>AList.update\<close> overwrites a key in place or appends it, as
  \<^verbatim>\<open>d[k] = v\<close> does.
\<close>

datatype bvalue =
    BStr string
  | BBytes "nat list"
  | BInt int
  | BList "bvalue list"
  | BDict "(string \<times> bvalue) list"

text \<open>The exceptions that the code raises or lets through.\<close>

datatype error =
    BencodeDecodeError
  | FileNotFoundError string
  | ValueError string
  | UnicodeDecodeError
  | NotADirectoryError string
  | KeyError string
  | TypeError
  | AttributeError
  | OSError

text \<open>
  The handler of \<^verbatim>\<open>discover_relevant_fast_resume\<close> names three classes;
  \<^verbatim>\<open>UnicodeDecodeError\<close> is a subclass of \<^verbatim>\<open>ValueError\<close>, the others are not
  subclasses of any of the three.
\<close>

fun caught :: "error \<Rightarrow> bool" where
  "caught BencodeDecodeError = True"
| "caught (FileNotFoundError p) = True"
| "caught (ValueError m) = True"
| "caught UnicodeDecodeError = True"
| "caught e = False"

record FastResume =
  file_path :: string
  data :: bvalue

datatype level = DEBUG | INFO | WARNING | CRITICAL

text \<open>
  The observable steps of the program, in the order they happen: a logger call, a
  \<^verbatim>\<open>bencode.bwrite(data, file_name)\<close>, an assignment \<^verbatim>\<open>self._data[key] = value\<close>,
  a \<^verbatim>\<open>yield\<close> of the generator, the steps of the zip archive, and the start of a
  thread that will run \<^verbatim>\<open>replace_paths\<close> with the given arguments.
\<close>

datatype effect =
    Log level string
  | Write string bvalue
  | Assign string bvalue
  | Yield FastResume
  | ZipOpen string
  | ZipAdd string string
  | ZipClose string
  | Spawn FastResume string string "string option" bool bool

section \<open>Python primitives\<close>

subsection \<open>Strings\<close>

definition startswith :: "string \<Rightarrow> string \<Rightarrow> bool" where
  "startswith s p = prefix p s"

definition endswith :: "string \<Rightarrow> string \<Rightarrow> bool" where
  "endswith s p = suffix p s"

text \<open>\<^verbatim>\<open>sub in s\<close> on two strings: \<open>sub\<close> occurs in \<open>s\<close> as a contiguous run.\<close>

fun str_in :: "string \<Rightarrow> string \<Rightarrow> bool" where
  "str_in sub [] = (sub = [])"
| "str_in sub (c # s) = (prefix sub (c # s) \<or> str_in sub s)"

text \<open>
  \<^verbatim>\<open>s.replace(old, new)\<close> without a count: every occurrence of \<open>old\<close> is replaced,
  scanning from the left and resuming after each replaced occurrence. An empty
  \<open>old\<close> matches before every character and at the end.
\<close>

fun replace_empty :: "string \<Rightarrow> string \<Rightarrow> string" where
  "replace_empty [] new = new"
| "replace_empty (c # s) new = new @ c # replace_empty s new"

function replace_nonempty :: "string \<Rightarrow> string \<Rightarrow> string \<Rightarrow> string" where
  "replace_nonempty [] old new = []"
| "replace_nonempty (c # s) old new =
     (if old \<noteq> [] \<and> prefix old (c # s)
      then new @ replace_nonempty (drop (length old) (c # s)) old new
      else c # replace_nonempty s old new)"
  by pat_completeness auto
termination
  by (relation "measure (\<lambda>(s, old, new). length s)") (auto simp: less_Suc_eq_le neq_Nil_conv)

definition str_replace :: "string \<Rightarrow> string \<Rightarrow> string \<Rightarrow> string" where
  "str_replace s old new =
     (if old = [] then replace_empty s new else replace_nonempty s old new)"

text \<open>
  The substitution as the specification words it: only the first occurrence of
  \<open>old\<close> is replaced, which is \<^verbatim>\<open>s.replace(old, new, 1)\<close>.
\<close>

fun replace_first :: "string \<Rightarrow> string \<Rightarrow> string \<Rightarrow> string" where
  "replace_first [] old new = (if old = [] then new else [])"
| "replace_first (c # s) old new =
     (if prefix old (c # s) then new @ drop (length old) (c # s)
      else c # replace_first s old new)"

subsection \<open>Containers\<close>

text \<open>\<^verbatim>\<open>key in container\<close> for a string key.\<close>

fun py_contains :: "string \<Rightarrow> bvalue \<Rightarrow> error + bool" where
  "py_contains k (BStr s) = Inr (str_in k s)"
| "py_contains k (BBytes b) = Inl TypeError"
| "py_contains k (BInt i) = Inl TypeError"
| "py_contains k (BList xs) = Inr (BStr k \<in> set xs)"
| "py_contains k (BDict kvs) = Inr (k \<in> fst ` set kvs)"

text \<open>\<^verbatim>\<open>container[key]\<close> for a string key.\<close>

fun py_getitem :: "bvalue \<Rightarrow> string \<Rightarrow> error + bvalue" where
  "py_getitem (BDict kvs) k =
     (case map_of kvs k of None \<Rightarrow> Inl (KeyError k) | Some v \<Rightarrow> Inr v)"
| "py_getitem v k = Inl TypeError"

text \<open>\<^verbatim>\<open>container[key] = value\<close> for a string key.\<close>

fun py_setitem :: "bvalue \<Rightarrow> string \<Rightarrow> bvalue \<Rightarrow> error + bvalue" where
  "py_setitem (BDict kvs) k v = Inr (BDict (AList.update k v kvs))"
| "py_setitem d k v = Inl TypeError"

text \<open>The items that \<^verbatim>\<open>for x in value\<close> visits.\<close>

fun py_iter :: "bvalue \<Rightarrow> error + bvalue list" where
  "py_iter (BStr s) = Inr (map (\<lambda>c. BStr [c]) s)"
| "py_iter (BBytes b) = Inr (map (\<lambda>n. BInt (int n)) b)"
| "py_iter (BInt i) = Inl TypeError"
| "py_iter (BList xs) = Inr xs"
| "py_iter (BDict kvs) = Inr (map (\<lambda>kv. BStr (fst kv)) kvs)"

text \<open>\<^verbatim>\<open>value.replace(old, new)\<close> with two string arguments.\<close>

fun py_replace :: "bvalue \<Rightarrow> string \<Rightarrow> string \<Rightarrow> error + string" where
  "py_replace (BStr s) old new = Inr (str_replace s old new)"
| "py_replace (BBytes b) old new = Inl TypeError"
| "py_replace v old new = Inl AttributeError"

text \<open>A list comprehension whose body may raise: it stops at the first error.\<close>

fun map_result :: "('a \<Rightarrow> error + 'b) \<Rightarrow> 'a list \<Rightarrow> error + 'b list" where
  "map_result f [] = Inr []"
| "map_result f (x # xs) =
     (case f x of Inl e \<Rightarrow> Inl e
      | Inr y \<Rightarrow> (case map_result f xs of Inl e \<Rightarrow> Inl e | Inr ys \<Rightarrow> Inr (y # ys)))"

section \<open>FastResume\<close>

text \<open>
  A method of the class takes the object and returns the exception it raised, if any,
  the object as the call left it, and the effects of the call in order. An object
  that a raising call has already changed stays changed, as in Python.

  The clock is a parameter: \<open>now\<close> is \<^verbatim>\<open>datetime.now().strftime('%Y%m%d%H%M%S')\<close>
  at the one place where a call reads it. \<^verbatim>\<open>convert_slashes\<close> is imported from
  \<^verbatim>\<open>.methods\<close>, which is not part of the sources at hand: it is the parameter
  \<open>cs\<close>, any function of a value and a target that returns a value or raises.
  \<^verbatim>\<open>bencode.bwrite\<close> is taken to succeed. A log message keeps the text and the
  strings it interpolates; interpolated values that are not strings are left out.
\<close>

type_synonym outcome = "error option \<times> FastResume \<times> effect list"

type_synonym translator = "bvalue \<Rightarrow> string \<Rightarrow> error + bvalue"

text \<open>Sequencing of two statements: the second runs only if the first returned.\<close>

definition and_then :: "outcome \<Rightarrow> (FastResume \<Rightarrow> outcome) \<Rightarrow> outcome" where
  "and_then x f =
     (case x of
        (Some e, fr, tr) \<Rightarrow> (Some e, fr, tr)
      | (None, fr, tr) \<Rightarrow> (case f fr of (r, fr', tr') \<Rightarrow> (r, fr', tr @ tr')))"

definition backup_filename :: "string \<Rightarrow> FastResume \<Rightarrow> string" where
  "backup_filename now fr = file_path fr @ ''.'' @ now @ ''.'' @ ''bkup''"

definition save_path :: "FastResume \<Rightarrow> error + bvalue" where
  "save_path fr = py_getitem (data fr) ''save_path''"

definition qbt_save_path :: "FastResume \<Rightarrow> error + bvalue" where
  "qbt_save_path fr = py_getitem (data fr) ''qBt-savePath''"

definition mapped_files :: "FastResume \<Rightarrow> error + bvalue option" where
  "mapped_files fr =
     (case py_contains ''mapped_files'' (data fr) of
        Inl e \<Rightarrow> Inl e
      | Inr True \<Rightarrow>
          (case py_getitem (data fr) ''mapped_files'' of
             Inl e \<Rightarrow> Inl e
           | Inr v \<Rightarrow> Inr (Some v))
      | Inr False \<Rightarrow> Inr None)"

definition save :: "FastResume \<Rightarrow> string option \<Rightarrow> effect list" where
  "save fr file_name =
     (let fn = (case file_name of None \<Rightarrow> file_path fr | Some f \<Rightarrow> f)
      in [Log INFO (''Saving File '' @ fn @ ''...''), Write fn (data fr)])"

definition set_save_path ::
  "translator \<Rightarrow> string \<Rightarrow> string \<Rightarrow> string \<Rightarrow> string option \<Rightarrow> bool \<Rightarrow> bool \<Rightarrow>
   FastResume \<Rightarrow> outcome" where
  "set_save_path cs now path key target_os save_file create_backup fr =
     (if key \<notin> set [''save_path'', ''qBt-savePath'']
      then (Some (KeyError (''When setting a save path, key must be `save_path` or `qBt-savePath`. ''
                            @ ''Received '' @ key)), fr, [])
      else
        let tr1 = (if create_backup then save fr (Some (backup_filename now fr)) else [])
        in case (case target_os of None \<Rightarrow> Inr (BStr path) | Some os \<Rightarrow> cs (BStr path) os) of
             Inl e \<Rightarrow> (Some e, fr, tr1)
           | Inr path' \<Rightarrow>
               (case py_getitem (data fr) key of
                  Inl e \<Rightarrow> (Some e, fr, tr1)
                | Inr old \<Rightarrow>
                    (let tr2 = tr1 @ [Log DEBUG (''Setting '' @ key @ ''...'')]
                     in case py_setitem (data fr) key path' of
                          Inl e \<Rightarrow> (Some e, fr, tr2)
                        | Inr d \<Rightarrow>
                            (let fr' = fr\<lparr>data := d\<rparr>;
                                 tr3 = tr2 @ [Assign key path']
                             in (None, fr', tr3 @ (if save_file then save fr' None else []))))))"

text \<open>
  Lines 157 to 159 of the source, the rewrite of \<^verbatim>\<open>mapped_files\<close> inside
  \<^verbatim>\<open>set_save_paths\<close>. The property is read twice, in the condition and in the
  comprehension; a \<^verbatim>\<open>None\<close> at the second read could not be iterated.
\<close>

definition convert_mapped_files :: "translator \<Rightarrow> string option \<Rightarrow> FastResume \<Rightarrow> outcome" where
  "convert_mapped_files cs target_os fr =
     (case mapped_files fr of
        Inl e \<Rightarrow> (Some e, fr, [])
      | Inr None \<Rightarrow> (None, fr, [])
      | Inr (Some m) \<Rightarrow>
          (case target_os of
             None \<Rightarrow> (None, fr, [])
           | Some os \<Rightarrow>
               (let tr1 = [Log DEBUG ''Converting Slashes for mapped_files...'']
                in case mapped_files fr of
                     Inl e \<Rightarrow> (Some e, fr, tr1)
                   | Inr None \<Rightarrow> (Some TypeError, fr, tr1)
                   | Inr (Some v) \<Rightarrow>
                       (case py_iter v of
                          Inl e \<Rightarrow> (Some e, fr, tr1)
                        | Inr xs \<Rightarrow>
                            (case map_result (\<lambda>p. cs p os) xs of
                               Inl e \<Rightarrow> (Some e, fr, tr1)
                             | Inr ys \<Rightarrow>
                                 (case py_setitem (data fr) ''mapped_files'' (BList ys) of
                                    Inl e \<Rightarrow> (Some e, fr, tr1)
                                  | Inr d \<Rightarrow>
                                      (None, fr\<lparr>data := d\<rparr>,
                                       tr1 @ [Assign ''mapped_files'' (BList ys)])))))))"

definition set_save_paths ::
  "translator \<Rightarrow> string \<Rightarrow> string \<Rightarrow> string option \<Rightarrow> bool \<Rightarrow> bool \<Rightarrow> FastResume \<Rightarrow> outcome" where
  "set_save_paths cs now path target_os save_file create_backup fr =
     and_then
       (None, fr, if create_backup then save fr (Some (backup_filename now fr)) else [])
       (\<lambda>fr0. and_then
          (set_save_path cs now path ''save_path'' target_os False False fr0)
          (\<lambda>fr1. and_then
             (set_save_path cs now path ''qBt-savePath'' target_os False False fr1)
             (\<lambda>fr2. and_then
                (convert_mapped_files cs target_os fr2)
                (\<lambda>fr3. (None, fr3, if save_file then save fr3 None else [])))))"

definition replace_paths ::
  "translator \<Rightarrow> string \<Rightarrow> string \<Rightarrow> string \<Rightarrow> string option \<Rightarrow> bool \<Rightarrow> bool \<Rightarrow>
   FastResume \<Rightarrow> outcome" where
  "replace_paths cs now existing_path new_path target_os save_file create_backup fr =
     (let tr0 = [Log INFO (''Replacing Paths in FastResume '' @ file_path fr @ ''...'')]
      in case save_path fr of
           Inl e \<Rightarrow> (Some e, fr, tr0)
         | Inr sp \<Rightarrow>
             (case py_replace sp existing_path new_path of
                Inl e \<Rightarrow> (Some e, fr, tr0)
              | Inr new_save_path \<Rightarrow>
                  and_then
                    (None, fr,
                     tr0 @ [Log DEBUG (''Existing Save Path: '' @ existing_path
                                       @ '', New Save Path: '' @ new_path
                                       @ '', Replaced Save Path: '' @ new_save_path)])
                    (\<lambda>fr0. and_then
                       (set_save_paths cs now new_save_path target_os save_file create_backup fr0)
                       (\<lambda>fr1. (None, fr1,
                          [Log INFO (''FastResume ('' @ file_path fr1 @ '') Paths Replaced!'')])))))"

section \<open>The file system\<close>

text \<open>
  What the program reads from its surroundings. A path names a directory with its
  listing, or a regular file with what \<^verbatim>\<open>bencode.bread\<close> does on it: the decoded
  value, or the exception it raises. \<open>realpath\<close> is \<^verbatim>\<open>os.path.realpath\<close> and
  \<open>zip_open\<close> says whether \<^verbatim>\<open>zipfile.ZipFile(archive_path, 'w')\<close> raises. Paths
  follow \<^verbatim>\<open>posixpath\<close>.
\<close>

datatype node = Dir "string list" | File "error + bvalue"

record env =
  realpath :: "string \<Rightarrow> string"
  nodes :: "string \<Rightarrow> node option"
  zip_open :: "string \<Rightarrow> error option"

definition exists :: "env \<Rightarrow> string \<Rightarrow> bool" where
  "exists env p = (case nodes env p of None \<Rightarrow> False | Some n \<Rightarrow> True)"

definition isfile :: "env \<Rightarrow> string \<Rightarrow> bool" where
  "isfile env p = (case nodes env p of Some (File c) \<Rightarrow> True | _ \<Rightarrow> False)"

definition isdir :: "env \<Rightarrow> string \<Rightarrow> bool" where
  "isdir env p = (case nodes env p of Some (Dir l) \<Rightarrow> True | _ \<Rightarrow> False)"

definition listdir :: "env \<Rightarrow> string \<Rightarrow> error + string list" where
  "listdir env p =
     (case nodes env p of
        None \<Rightarrow> Inl (FileNotFoundError p)
      | Some (File c) \<Rightarrow> Inl (NotADirectoryError p)
      | Some (Dir l) \<Rightarrow> Inr l)"

definition bread :: "env \<Rightarrow> string \<Rightarrow> error + bvalue" where
  "bread env p =
     (case nodes env p of
        None \<Rightarrow> Inl (FileNotFoundError p)
      | Some (Dir l) \<Rightarrow> Inl OSError
      | Some (File c) \<Rightarrow> c)"

definition join :: "string \<Rightarrow> string \<Rightarrow> string" where
  "join a b =
     (if startswith b ''/'' then b
      else if a = [] \<or> endswith a ''/'' then a @ b
      else a @ ''/'' @ b)"

definition dirname :: "string \<Rightarrow> string" where
  "dirname p =
     (let head = rev (dropWhile (\<lambda>c. c \<noteq> CHR ''/'') (rev p))
      in if head \<noteq> [] \<and> head \<noteq> replicate (length head) CHR ''/''
         then rev (dropWhile (\<lambda>c. c = CHR ''/'') (rev head))
         else head)"

text \<open>\<^verbatim>\<open>FastResume.__init__\<close>: the new object, or the exception, with the log.\<close>

definition FastResume_init :: "env \<Rightarrow> string \<Rightarrow> (error + FastResume) \<times> effect list" where
  "FastResume_init env path =
     (let fp = realpath env path
      in if \<not> exists env fp \<or> \<not> isfile env fp then (Inl (FileNotFoundError fp), [])
         else
           let tr1 = [Log DEBUG (''Loading Fast Resume: '' @ fp)]
           in case bread env fp of
                Inl e \<Rightarrow> (Inl e, tr1)
              | Inr d \<Rightarrow>
                  (case py_contains ''save_path'' d of
                     Inl e \<Rightarrow> (Inl e, tr1)
                   | Inr False \<Rightarrow>
                       (Inl (ValueError ''Missing required keys for a qBittorrent .fastresume file''), tr1)
                   | Inr True \<Rightarrow>
                       (case py_contains ''qBt-savePath'' d of
                          Inl e \<Rightarrow> (Inl e, tr1)
                        | Inr False \<Rightarrow>
                            (Inl (ValueError ''Missing required keys for a qBittorrent .fastresume file''), tr1)
                        | Inr True \<Rightarrow>
                            (Inr \<lparr>file_path = fp, data = d\<rparr>,
                             tr1 @ [Log DEBUG (''Fast Resume ('' @ fp @ '') Init Complete.'')]))))"

section \<open>QBTBatchMove\<close>

text \<open>
  Lines 81 and 82 of the source: \<^verbatim>\<open>existing_path in fast_resume.save_path or
  existing_path in fast_resume.qbt_save_path\<close>, where \<^verbatim>\<open>or\<close> reads its second
  operand only if the first is false.
\<close>

definition has_existing_path :: "string \<Rightarrow> FastResume \<Rightarrow> error + bool" where
  "has_existing_path existing_path fr =
     (case save_path fr of
        Inl e \<Rightarrow> Inl e
      | Inr sp \<Rightarrow>
          (case py_contains existing_path sp of
             Inl e \<Rightarrow> Inl e
           | Inr True \<Rightarrow> Inr True
           | Inr False \<Rightarrow>
               (case qbt_save_path fr of
                  Inl e \<Rightarrow> Inl e
                | Inr qp \<Rightarrow> py_contains existing_path qp)))"

text \<open>The effects \<open>tr\<close> happened, then the rest ran.\<close>

definition after :: "effect list \<Rightarrow> error option \<times> effect list \<Rightarrow> error option \<times> effect list" where
  "after tr x = (fst x, tr @ snd x)"

text \<open>
  The loop of the generator over the listing. A \<open>Yield\<close> in the trace is a record
  handed to the consumer; an exception ends the generator.
\<close>

fun discover_files ::
  "env \<Rightarrow> string \<Rightarrow> string \<Rightarrow> bool \<Rightarrow> string list \<Rightarrow> error option \<times> effect list" where
  "discover_files env bt_backup_path existing_path raise_on_error [] = (None, [])"
| "discover_files env bt_backup_path existing_path raise_on_error (file # files) =
     (if endswith file ''.fastresume'' then
        (case FastResume_init env (join bt_backup_path file) of
           (Inl e, tr) \<Rightarrow>
             (if caught e then
                (if raise_on_error
                 then (Some e, tr @ [Log CRITICAL (''Unable to parse '' @ file @ ''. Stopping Discovery!'')])
                 else after (tr @ [Log WARNING (''Unable to parse '' @ file @ ''. Skipping!'')])
                        (discover_files env bt_backup_path existing_path raise_on_error files))
              else (Some e, tr))
         | (Inr fast_resume, tr) \<Rightarrow>
             (case has_existing_path existing_path fast_resume of
                Inl e \<Rightarrow> (Some e, tr)
              | Inr True \<Rightarrow>
                  after (tr @ [Yield fast_resume])
                    (discover_files env bt_backup_path existing_path raise_on_error files)
              | Inr False \<Rightarrow>
                  after tr (discover_files env bt_backup_path existing_path raise_on_error files)))
      else discover_files env bt_backup_path existing_path raise_on_error files)"

definition discover_relevant_fast_resume ::
  "env \<Rightarrow> string \<Rightarrow> string \<Rightarrow> bool \<Rightarrow> error option \<times> effect list" where
  "discover_relevant_fast_resume env bt_backup_path existing_path raise_on_error =
     (case listdir env bt_backup_path of
        Inl e \<Rightarrow> (Some e, [])
      | Inr files \<Rightarrow> discover_files env bt_backup_path existing_path raise_on_error files)"

text \<open>The records the generator hands out, in order.\<close>

fun yielded :: "effect list \<Rightarrow> FastResume list" where
  "yielded [] = []"
| "yielded (Yield fr # tr) = fr # yielded tr"
| "yielded (e # tr) = yielded tr"

text \<open>The loop of \<^verbatim>\<open>backup_folder\<close>: \<^verbatim>\<open>archive.write\<close> raises on a missing path.\<close>

fun archive_files :: "env \<Rightarrow> string \<Rightarrow> string \<Rightarrow> string list \<Rightarrow> error option \<times> effect list" where
  "archive_files env archive_path folder_path [] = (None, [])"
| "archive_files env archive_path folder_path (file # files) =
     (let p = join folder_path file
      in if \<not> exists env p then (Some (FileNotFoundError p), [])
         else after [ZipAdd archive_path p] (archive_files env archive_path folder_path files))"

definition backup_folder :: "env \<Rightarrow> string \<Rightarrow> string \<Rightarrow> error option \<times> effect list" where
  "backup_folder env folder_path archive_path =
     (let tr0 = [Log INFO (''Creating Archive '' @ archive_path @ '' ...'')]
      in case zip_open env archive_path of
           Some e \<Rightarrow> (Some e, tr0)
         | None \<Rightarrow>
             (let tr1 = tr0 @ [ZipOpen archive_path]
              in case listdir env folder_path of
                   Inl e \<Rightarrow> (Some e, tr1 @ [ZipClose archive_path])
                 | Inr files \<Rightarrow>
                     (case archive_files env archive_path folder_path files of
                        (Some e, tr) \<Rightarrow> (Some e, tr1 @ tr @ [ZipClose archive_path])
                      | (None, tr) \<Rightarrow>
                          (None, tr1 @ tr @ [ZipClose archive_path, Log INFO ''Done!'']))))"

text \<open>
  The body of the loop of \<^verbatim>\<open>run\<close>, at each record the generator yields: a thread
  is started on \<^verbatim>\<open>replace_paths\<close> and not waited for.
\<close>

fun dispatch :: "string \<Rightarrow> string \<Rightarrow> string option \<Rightarrow> effect \<Rightarrow> effect" where
  "dispatch existing_path new_path target_os (Yield fast_resume) =
     Spawn fast_resume existing_path new_path target_os True False"
| "dispatch existing_path new_path target_os e = e"

definition run ::
  "env \<Rightarrow> string \<Rightarrow> string \<Rightarrow> string \<Rightarrow> string \<Rightarrow> string option \<Rightarrow> bool \<Rightarrow> bool \<Rightarrow>
   error option \<times> effect list" where
  "run env now bt_backup_path existing_path new_path target_os create_backup skip_bad_files =
     (if \<not> exists env bt_backup_path \<or> \<not> isdir env bt_backup_path
      then (Some (NotADirectoryError bt_backup_path), [])
      else
        (case (if create_backup
               then backup_folder env bt_backup_path
                      (join (dirname bt_backup_path) (''fastresume_backup'' @ now @ ''.zip''))
               else (None, [])) of
           (Some e, tr) \<Rightarrow> (Some e, tr)
         | (None, tr) \<Rightarrow>
             (case discover_relevant_fast_resume env bt_backup_path existing_path
                     (\<not> skip_bad_files) of
                (r, dtr) \<Rightarrow>
                  (r, tr @ [Log INFO (''Searching for .fastresume files with path ''
                                      @ existing_path @ '' ...'')]
                         @ map (dispatch existing_path new_path target_os) dtr))))"

section \<open>Reading outcomes and traces\<close>

definition raised :: "outcome \<Rightarrow> error option" where
  "raised x = fst x"

definition object :: "outcome \<Rightarrow> FastResume" where
  "object x = fst (snd x)"

definition effects :: "outcome \<Rightarrow> effect list" where
  "effects x = snd (snd x)"

text \<open>The steps that store something: a file write or an assignment to a field.\<close>

fun is_store :: "effect \<Rightarrow> bool" where
  "is_store (Write p d) = True"
| "is_store (Assign k v) = True"
| "is_store e = False"

text \<open>The contents written to the path \<open>p\<close>, in order.\<close>

fun written_to :: "string \<Rightarrow> effect list \<Rightarrow> bvalue list" where
  "written_to p [] = []"
| "written_to p (Write q d # tr) = (if q = p then d # written_to p tr else written_to p tr)"
| "written_to p (e # tr) = written_to p tr"

text \<open>The keys assigned to, in order.\<close>

fun assigned :: "effect list \<Rightarrow> string list" where
  "assigned [] = []"
| "assigned (Assign k v # tr) = k # assigned tr"
| "assigned (e # tr) = assigned tr"

text \<open>The messages logged at level WARNING, in order.\<close>

fun warnings :: "effect list \<Rightarrow> string list" where
  "warnings [] = []"
| "warnings (Log WARNING m # tr) = m # warnings tr"
| "warnings (e # tr) = warnings tr"

text \<open>
  The steps of the archive: the two messages of \<^verbatim>\<open>backup_folder\<close> and the steps on
  the zip file. Everything else reads, yields, starts a thread or stores.
\<close>

fun is_archive_step :: "effect \<Rightarrow> bool" where
  "is_archive_step (Log INFO m) = (prefix ''Creating Archive '' m \<or> m = ''Done!'')"
| "is_archive_step (ZipOpen a) = True"
| "is_archive_step (ZipAdd a p) = True"
| "is_archive_step (ZipClose a) = True"
| "is_archive_step e = False"

text \<open>
  The records that a listing gives rise to: for each entry with the suffix, in
  order, the record built from it if the construction returns and the test of
  lines 81 and 82 is true.
\<close>

definition matching :: "env \<Rightarrow> string \<Rightarrow> string \<Rightarrow> string list \<Rightarrow> FastResume list" where
  "matching env bt_backup_path existing_path files =
     concat (map (\<lambda>file.
       if endswith file ''.fastresume'' then
         (case fst (FastResume_init env (join bt_backup_path file)) of
            Inl e \<Rightarrow> []
          | Inr fr \<Rightarrow> if has_existing_path existing_path fr = Inr True then [fr] else [])
       else []) files)"

text \<open>
  A valid resume file: the construction returns and both save paths are strings,
  as the data model of the specification has it. A malformed one: the construction
  raises one of the errors of a record that cannot be built (not a regular file, not
  decodable, a required key missing), which are those the handler names.
\<close>

definition valid_file :: "env \<Rightarrow> string \<Rightarrow> bool" where
  "valid_file env p =
     (case fst (FastResume_init env p) of
        Inl e \<Rightarrow> False
      | Inr fr \<Rightarrow>
          (case save_path fr of
             Inr (BStr s) \<Rightarrow> (case qbt_save_path fr of Inr (BStr q) \<Rightarrow> True | _ \<Rightarrow> False)
           | _ \<Rightarrow> False))"

definition malformed_file :: "env \<Rightarrow> string \<Rightarrow> bool" where
  "malformed_file env p =
     (case fst (FastResume_init env p) of Inl e \<Rightarrow> caught e | Inr fr \<Rightarrow> False)"

text \<open>The entries of a listing that carry the suffix and are malformed, in order.\<close>

definition malformed_entries :: "env \<Rightarrow> string \<Rightarrow> string list \<Rightarrow> string list" where
  "malformed_entries env bt_backup_path files =
     filter (\<lambda>file. endswith file ''.fastresume'' \<and> malformed_file env (join bt_backup_path file))
       files"

section \<open>A path translator and a directory to run the code on\<close>

text \<open>
  Modelled from the spec: \<^verbatim>\<open>convert_slashes\<close> of \<^verbatim>\<open>.methods\<close>, the Path Translator
  of section 4.3, is not among the sources. The specification gives the targets
  Windows, Linux and Mac and the conversion of separators between backslash and forward
  slash; it leaves open what happens on another target or on a value that is not a
  string, where this model raises. The theorems below hold for every translator; this
  one serves to run them on concrete inputs.
\<close>

fun convert_slashes :: "bvalue \<Rightarrow> string \<Rightarrow> error + bvalue" where
  "convert_slashes (BStr p) os =
     (if os = ''Windows'' then Inr (BStr (map (\<lambda>c. if c = CHR ''/'' then CHR 0x5C else c) p))
      else if os = ''Linux'' \<or> os = ''Mac''
      then Inr (BStr (map (\<lambda>c. if c = CHR 0x5C then CHR ''/'' else c) p))
      else Inl (ValueError ''Target OS is not valid''))"
| "convert_slashes v os = Inl TypeError"

definition movies :: FastResume where
  "movies = \<lparr>file_path = ''/bt/a.fastresume'',
            data = BDict [(''qBt-savePath'', BStr ''/mnt/old/data/movies''),
                          (''mapped_files'', BList [BStr ''cd1/a.avi'', BStr ''cd2/b.avi'']),
                          (''save_path'', BStr ''/mnt/old/data/movies'')]\<rparr>"

definition twice :: FastResume where
  "twice = \<lparr>file_path = ''/bt/d.fastresume'',
           data = BDict [(''save_path'', BStr ''/a/a''), (''qBt-savePath'', BStr ''/a/a'')]\<rparr>"

text \<open>
  A directory with two valid resume files, one that does not decode, one that lacks
  a key, and an entry without the suffix.
\<close>

definition bt_nodes :: "string \<Rightarrow> node option" where
  "bt_nodes p =
     (if p = ''/bt'' then
        Some (Dir [''a.fastresume'', ''b.fastresume'', ''notes.txt'', ''c.fastresume'', ''d.fastresume''])
      else if p = ''/bt/a.fastresume'' then Some (File (Inr (data movies)))
      else if p = ''/bt/b.fastresume'' then Some (File (Inl BencodeDecodeError))
      else if p = ''/bt/notes.txt'' then Some (File (Inl BencodeDecodeError))
      else if p = ''/bt/c.fastresume'' then
        Some (File (Inr (BDict [(''save_path'', BStr ''/mnt/old/c'')])))
      else if p = ''/bt/d.fastresume'' then Some (File (Inr (data twice)))
      else None)"

definition bt_env :: env where
  "bt_env = \<lparr>realpath = (\<lambda>p. p), nodes = bt_nodes, zip_open = (\<lambda>p. None)\<rparr>"

definition bt_env_no_zip :: env where
  "bt_env_no_zip = \<lparr>realpath = (\<lambda>p. p), nodes = bt_nodes, zip_open = (\<lambda>p. Some OSError)\<rparr>"

text \<open>
  Two directories with a resume file that is neither valid nor malformed in the
  sense above, followed by a valid one. In \<open>/odd\<close> the first file decodes to an
  integer: \<^verbatim>\<open>'save_path' not in 5\<close> raises \<^verbatim>\<open>TypeError\<close> inside the constructor,
  and the handler does not name it. In \<open>/odd2\<close> the first file decodes to a
  dictionary with both keys whose primary save path is a byte string that is not
  UTF-8: the record is constructed, and \<^verbatim>\<open>existing_path in fast_resume.save_path\<close>
  raises \<^verbatim>\<open>TypeError\<close> after the handler.
\<close>

definition odd_nodes :: "string \<Rightarrow> node option" where
  "odd_nodes p =
     (if p = ''/odd'' then Some (Dir [''n.fastresume'', ''a.fastresume''])
      else if p = ''/odd/n.fastresume'' then Some (File (Inr (BInt 5)))
      else if p = ''/odd/a.fastresume'' then Some (File (Inr (data movies)))
      else if p = ''/odd2'' then Some (Dir [''b.fastresume'', ''a.fastresume''])
      else if p = ''/odd2/b.fastresume'' then
        Some (File (Inr (BDict [(''qBt-savePath'', BStr ''/mnt/old/b''),
                                (''save_path'', BBytes [255, 47, 98])])))
      else if p = ''/odd2/a.fastresume'' then Some (File (Inr (data movies)))
      else None)"

definition odd_env :: env where
  "odd_env = \<lparr>realpath = (\<lambda>p. p), nodes = odd_nodes, zip_open = (\<lambda>p. None)\<rparr>"

section \<open>Facts about the string primitives\<close>

text \<open>\<open>str_in\<close> is the contiguous-sublist relation of the library.\<close>

lemma str_in_sublist: "str_in sub s = sublist sub s"
  by (induction s) (auto simp: sublist_Cons_right)

lemma prefix_of_longer:
  assumes "prefix xs (ys @ zs)" and "length xs \<le> length ys"
  shows "prefix xs ys"
  using assms by (auto simp: prefix_append)

lemma no_early_prefix:
  assumes "old \<noteq> []" and "pre \<noteq> []" and "\<not> prefix old (pre @ butlast old)"
  shows "\<not> prefix old (pre @ old @ post)"
proof
  assume p: "prefix old (pre @ old @ post)"
  have "pre @ old @ post = (pre @ butlast old) @ (last old # post)"
    using assms(1) by (metis append.assoc append_Cons append_Nil append_butlast_last_id)
  with p have "prefix old ((pre @ butlast old) @ (last old # post))" by simp
  moreover have "length old \<le> length (pre @ butlast old)" using assms(1,2) by (cases old; cases pre) auto
  ultimately have "prefix old (pre @ butlast old)" by (rule prefix_of_longer)
  with assms(3) show False ..
qed

lemma replace_nonempty_first:
  assumes "old \<noteq> []" and "\<not> str_in old (pre @ butlast old)"
  shows "replace_nonempty (pre @ old @ post) old new = pre @ new @ replace_nonempty post old new"
  using assms
proof (induction pre)
  case Nil
  then obtain c t where "old = c # t" by (cases old) auto
  then show ?case by simp
next
  case (Cons c pre)
  have no: "\<not> prefix old ((c # pre) @ butlast old)" and rest: "\<not> str_in old (pre @ butlast old)"
    using Cons.prems(2) by auto
  have "\<not> prefix old ((c # pre) @ old @ post)"
    using no_early_prefix[OF Cons.prems(1) _ no] by simp
  then show ?case using Cons.IH[OF Cons.prems(1) rest] by simp
qed

lemma replace_first_first:
  assumes "old \<noteq> []" and "\<not> str_in old (pre @ butlast old)"
  shows "replace_first (pre @ old @ post) old new = pre @ new @ post"
  using assms
proof (induction pre)
  case Nil
  then obtain c t where "old = c # t" by (cases old) auto
  then show ?case by simp
next
  case (Cons c pre)
  have no: "\<not> prefix old ((c # pre) @ butlast old)" and rest: "\<not> str_in old (pre @ butlast old)"
    using Cons.prems(2) by auto
  have "\<not> prefix old ((c # pre) @ old @ post)"
    using no_early_prefix[OF Cons.prems(1) _ no] by simp
  then show ?case using Cons.IH[OF Cons.prems(1) rest] by simp
qed

lemma replace_nonempty_absent:
  "\<not> str_in old s \<Longrightarrow> replace_nonempty s old new = s"
  by (induction s) auto


lemma str_replace_first_occurrence:
  assumes "old \<noteq> []" and "\<not> str_in old (pre @ butlast old)"
  shows "str_replace (pre @ old @ post) old new = pre @ new @ str_replace post old new"
  using assms by (simp add: str_replace_def replace_nonempty_first)

lemma str_replace_absent: "\<not> str_in old s \<Longrightarrow> str_replace s old new = s"
  by (cases "old = []") (auto simp: str_replace_def replace_nonempty_absent str_in_sublist)

section \<open>Evaluation on concrete inputs\<close>

lemmas eval_defs =
  replace_paths_def set_save_paths_def set_save_path_def convert_mapped_files_def
  mapped_files_def save_path_def qbt_save_path_def and_then_def save_def backup_filename_def
  str_replace_def raised_def object_def effects_def

section \<open>Substitution of every occurrence (C1)\<close>

lemma replace_paths_unfold:
  assumes "save_path fr = Inr (BStr s)"
  shows "replace_paths cs now existing_path new_path target_os save_file create_backup fr =
     (case set_save_paths cs now (str_replace s existing_path new_path) target_os save_file
             create_backup fr of
        (r, fr', tr) \<Rightarrow>
          (r, fr',
           [Log INFO (''Replacing Paths in FastResume '' @ file_path fr @ ''...''),
            Log DEBUG (''Existing Save Path: '' @ existing_path @ '', New Save Path: '' @ new_path
                       @ '', Replaced Save Path: '' @ str_replace s existing_path new_path)]
           @ tr
           @ (case r of None \<Rightarrow> [Log INFO (''FastResume ('' @ file_path fr' @ '') Paths Replaced!'')]
              | Some e \<Rightarrow> [])))"
  using assms
  by (simp add: replace_paths_def and_then_def split: prod.splits option.splits)

text \<open>
  C1, as amended. When the primary save path is a string, \<open>replace_paths\<close> raises what
  \<open>set_save_paths\<close> raises, leaves the object that \<open>set_save_paths\<close> leaves and stores
  what it stores, when \<open>set_save_paths\<close> is given the save path with every occurrence
  of \<open>existing_path\<close> replaced by \<open>new_path\<close>: the leftmost occurrence is replaced and
  the substitution goes on in what follows it, and a string without an occurrence is
  left as it is.
\<close>

theorem replace_paths_replaces_every_occurrence:
  assumes "save_path fr = Inr (BStr s)"
  shows "raised (replace_paths cs now existing_path new_path target_os save_file create_backup fr)
           = raised (set_save_paths cs now (str_replace s existing_path new_path) target_os
                       save_file create_backup fr)
       \<and> object (replace_paths cs now existing_path new_path target_os save_file create_backup fr)
           = object (set_save_paths cs now (str_replace s existing_path new_path) target_os
                       save_file create_backup fr)
       \<and> filter is_store
           (effects (replace_paths cs now existing_path new_path target_os save_file create_backup fr))
           = filter is_store
               (effects (set_save_paths cs now (str_replace s existing_path new_path) target_os
                           save_file create_backup fr))
       \<and> (\<forall>pre post. existing_path \<noteq> [] \<and> s = pre @ existing_path @ post
              \<and> \<not> str_in existing_path (pre @ butlast existing_path)
            \<longrightarrow> str_replace s existing_path new_path
                  = pre @ new_path @ str_replace post existing_path new_path)
       \<and> (\<not> str_in existing_path s \<longrightarrow> str_replace s existing_path new_path = s)"
proof -
  obtain r fr' tr where o:
    "set_save_paths cs now (str_replace s existing_path new_path) target_os save_file
       create_backup fr = (r, fr', tr)"
    by (cases "set_save_paths cs now (str_replace s existing_path new_path) target_os save_file
                 create_backup fr") auto
  have "raised (replace_paths cs now existing_path new_path target_os save_file create_backup fr) = r"
    and "object (replace_paths cs now existing_path new_path target_os save_file create_backup fr) = fr'"
    and "filter is_store
           (effects (replace_paths cs now existing_path new_path target_os save_file create_backup fr))
         = filter is_store tr"
    using o by (simp_all add: replace_paths_unfold[OF assms] raised_def object_def effects_def
        split: option.splits)
  moreover have "raised (set_save_paths cs now (str_replace s existing_path new_path) target_os
                       save_file create_backup fr) = r"
    and "object (set_save_paths cs now (str_replace s existing_path new_path) target_os
                       save_file create_backup fr) = fr'"
    and "effects (set_save_paths cs now (str_replace s existing_path new_path) target_os
                       save_file create_backup fr) = tr"
    using o by (simp_all add: raised_def object_def effects_def)
  ultimately show ?thesis
    by (auto simp: str_replace_first_occurrence str_replace_absent)
qed

text \<open>
  C1, as stated, fails: on the save path \<open>/a/a\<close> with \<open>/a\<close> to be replaced by \<open>/b\<close>,
  replacing the first occurrence only gives \<open>/b/a\<close>, and \<open>replace_paths\<close> stores
  \<open>/b/b\<close>.
\<close>

theorem replace_paths_first_occurrence_counterexample:
  "save_path twice = Inr (BStr ''/a/a'')
   \<and> replace_first ''/a/a'' ''/a'' ''/b'' = ''/b/a''
   \<and> save_path (object (replace_paths convert_slashes ''20260101000000'' ''/a'' ''/b''
                          None False False twice)) = Inr (BStr ''/b/b'')
   \<and> save_path (object (set_save_paths convert_slashes ''20260101000000''
                          (replace_first ''/a/a'' ''/a'' ''/b'') None False False twice))
       = Inr (BStr ''/b/a'')
   \<and> object (replace_paths convert_slashes ''20260101000000'' ''/a'' ''/b'' None False False twice)
       \<noteq> object (set_save_paths convert_slashes ''20260101000000''
                    (replace_first ''/a/a'' ''/a'' ''/b'') None False False twice)"
  by (simp add: eval_defs twice_def)

text \<open>C1, as amended, on the record \<open>twice\<close>.\<close>

theorem replace_paths_replaces_every_occurrence_witness:
  "save_path twice = Inr (BStr ''/a/a'')
   \<and> object (replace_paths convert_slashes ''20260101000000'' ''/a'' ''/b'' None False False twice)
       = object (set_save_paths convert_slashes ''20260101000000'' ''/b/b'' None False False twice)
   \<and> str_replace ''/a/a'' ''/a'' ''/b'' = ''/b'' @ str_replace ''/a'' ''/a'' ''/b''
   \<and> \<not> str_in ''/c'' ''/a/a''
   \<and> str_replace ''/a/a'' ''/c'' ''/b'' = ''/a/a''"
proof -
  have h: "save_path twice = Inr (BStr ''/a/a'')"
    by (simp add: save_path_def twice_def)
  have e: "str_replace ''/a/a'' ''/a'' ''/b'' = ''/b/b''"
    by (simp add: str_replace_def)
  have n: "\<not> str_in ''/c'' ''/a/a''" by simp
  have p: "''/a'' \<noteq> [] \<and> ''/a/a'' = [] @ ''/a'' @ ''/a'' \<and> \<not> str_in ''/a'' ([] @ butlast ''/a'')"
    by simp
  from replace_paths_replaces_every_occurrence[OF h, of convert_slashes "''20260101000000''"
      "''/a''" "''/b''" None False False]
  have a: "object (replace_paths convert_slashes ''20260101000000'' ''/a'' ''/b'' None False False twice)
       = object (set_save_paths convert_slashes ''20260101000000'' (str_replace ''/a/a'' ''/a'' ''/b'') None False False twice)"
    and b: "str_replace ''/a/a'' ''/a'' ''/b'' = [] @ ''/b'' @ str_replace ''/a'' ''/a'' ''/b''"
    using p by blast+
  from replace_paths_replaces_every_occurrence[OF h, of convert_slashes "''20260101000000''"
      "''/c''" "''/b''" None False False]
  have c: "str_replace ''/a/a'' ''/c'' ''/b'' = ''/a/a''"
    using n by blast
  show ?thesis using h a b c n unfolding e by simp
qed

section \<open>Facts about the setters\<close>

lemma and_then_returns:
  assumes "and_then x f = (None, fr', tr)"
  shows "\<exists>fr1 tr1 tr2. x = (None, fr1, tr1) \<and> f fr1 = (None, fr', tr2) \<and> tr = tr1 @ tr2"
  using assms by (auto simp: and_then_def split: prod.splits option.splits)

lemma mapped_files_dict:
  assumes "data fr = BDict kvs"
  shows "mapped_files fr = Inr (map_of kvs ''mapped_files'')"
proof (cases "map_of kvs ''mapped_files''")
  case None
  then have "''mapped_files'' \<notin> fst ` set kvs" by (simp add: map_of_eq_None_iff)
  with None assms show ?thesis by (simp add: mapped_files_def)
next
  case (Some v)
  then have "''mapped_files'' \<in> fst ` set kvs" by (metis map_of_eq_None_iff option.distinct(1))
  with Some assms show ?thesis by (simp add: mapped_files_def)
qed

lemma set_save_path_returns:
  assumes "set_save_path cs now path key target_os False False fr = (None, fr', tr)"
  shows "\<exists>kvs v. data fr = BDict kvs
           \<and> (case target_os of None \<Rightarrow> Inr (BStr path) | Some os \<Rightarrow> cs (BStr path) os) = Inr v
           \<and> fr' = fr\<lparr>data := BDict (AList.update key v kvs)\<rparr>
           \<and> tr = [Log DEBUG (''Setting '' @ key @ ''...''), Assign key v]"
proof (cases "data fr")
  case (BDict kvs)
  with assms show ?thesis
    by (auto simp: set_save_path_def Let_def split: if_splits sum.splits option.splits)
qed (use assms in \<open>auto simp: set_save_path_def Let_def split: if_splits sum.splits option.splits\<close>)

lemma convert_mapped_files_returns:
  assumes "convert_mapped_files cs target_os fr = (None, fr', tr)" and "data fr = BDict kvs"
  shows "(target_os = None \<or> map_of kvs ''mapped_files'' = None) \<and> fr' = fr \<and> tr = []
       \<or> (\<exists>os m xs ys. target_os = Some os \<and> map_of kvs ''mapped_files'' = Some m
             \<and> py_iter m = Inr xs \<and> map_result (\<lambda>p. cs p os) xs = Inr ys
             \<and> fr' = fr\<lparr>data := BDict (AList.update ''mapped_files'' (BList ys) kvs)\<rparr>
             \<and> tr = [Log DEBUG ''Converting Slashes for mapped_files...'',
                      Assign ''mapped_files'' (BList ys)])"
  using assms
  by (auto simp: convert_mapped_files_def mapped_files_dict[OF assms(2)] Let_def
      split: sum.splits option.splits)


lemma set_save_paths_returns:
  assumes "set_save_paths cs now path target_os save_file create_backup fr = (None, fr', tr)"
  obtains kvs v kvs' mtr where
    "data fr = BDict kvs"
    and "(case target_os of None \<Rightarrow> Inr (BStr path) | Some os \<Rightarrow> cs (BStr path) os) = Inr v"
    and "fr' = fr\<lparr>data := BDict kvs'\<rparr>"
    and "tr = (if create_backup then save fr (Some (backup_filename now fr)) else [])
              @ [Log DEBUG ''Setting save_path...'', Assign ''save_path'' v,
                 Log DEBUG ''Setting qBt-savePath...'', Assign ''qBt-savePath'' v]
              @ mtr @ (if save_file then save fr' None else [])"
    and "(target_os = None \<or> map_of kvs ''mapped_files'' = None) \<and> mtr = []
           \<and> kvs' = AList.update ''qBt-savePath'' v (AList.update ''save_path'' v kvs)
         \<or> (\<exists>os m xs ys. target_os = Some os \<and> map_of kvs ''mapped_files'' = Some m
               \<and> py_iter m = Inr xs \<and> map_result (\<lambda>p. cs p os) xs = Inr ys
               \<and> kvs' = AList.update ''mapped_files'' (BList ys)
                          (AList.update ''qBt-savePath'' v (AList.update ''save_path'' v kvs))
               \<and> mtr = [Log DEBUG ''Converting Slashes for mapped_files...'',
                        Assign ''mapped_files'' (BList ys)])"
proof -
  let ?bk = "if create_backup then save fr (Some (backup_filename now fr)) else []"
  let ?t = "case target_os of None \<Rightarrow> Inr (BStr path) | Some os \<Rightarrow> cs (BStr path) os"
  from and_then_returns[OF assms[unfolded set_save_paths_def]] obtain fr0 tr0 tr0' where
    s0: "(None, fr, ?bk) = (None, fr0, tr0)"
    and r0: "and_then (set_save_path cs now path ''save_path'' target_os False False fr0)
               (\<lambda>fr1. and_then
                  (set_save_path cs now path ''qBt-savePath'' target_os False False fr1)
                  (\<lambda>fr2. and_then (convert_mapped_files cs target_os fr2)
                     (\<lambda>fr3. (None, fr3, if save_file then save fr3 None else []))))
             = (None, fr', tr0')"
    and t0: "tr = tr0 @ tr0'"
    by blast
  from s0 have fr0: "fr0 = fr" and tr0: "tr0 = ?bk" by simp_all
  from and_then_returns[OF r0[unfolded fr0]] obtain fr1 tr1 tr1' where
    s1: "set_save_path cs now path ''save_path'' target_os False False fr = (None, fr1, tr1)"
    and r1: "and_then (set_save_path cs now path ''qBt-savePath'' target_os False False fr1)
               (\<lambda>fr2. and_then (convert_mapped_files cs target_os fr2)
                  (\<lambda>fr3. (None, fr3, if save_file then save fr3 None else [])))
             = (None, fr', tr1')"
    and t1: "tr0' = tr1 @ tr1'"
    by blast
  from and_then_returns[OF r1] obtain fr2 tr2 tr2' where
    s2: "set_save_path cs now path ''qBt-savePath'' target_os False False fr1 = (None, fr2, tr2)"
    and r2: "and_then (convert_mapped_files cs target_os fr2)
               (\<lambda>fr3. (None, fr3, if save_file then save fr3 None else [])) = (None, fr', tr2')"
    and t2: "tr1' = tr2 @ tr2'"
    by blast
  from and_then_returns[OF r2] obtain fr3 mtr tr3 where
    s3: "convert_mapped_files cs target_os fr2 = (None, fr3, mtr)"
    and r3: "(None, fr3, if save_file then save fr3 None else []) = (None, fr', tr3)"
    and t3: "tr2' = mtr @ tr3"
    by blast
  from r3 have fr3: "fr3 = fr'" and tr3: "tr3 = (if save_file then save fr' None else [])"
    by auto
  note s3 = s3[unfolded fr3]
  from set_save_path_returns[OF s1] obtain kvs v where
    d: "data fr = BDict kvs" and tv: "?t = Inr v"
    and f1: "fr1 = fr\<lparr>data := BDict (AList.update ''save_path'' v kvs)\<rparr>"
    and e1: "tr1 = [Log DEBUG (''Setting '' @ ''save_path'' @ ''...''), Assign ''save_path'' v]"
    by blast
  from set_save_path_returns[OF s2] tv f1 have
    f2: "fr2 = fr\<lparr>data := BDict (AList.update ''qBt-savePath'' v (AList.update ''save_path'' v kvs))\<rparr>"
    and e2: "tr2 = [Log DEBUG (''Setting '' @ ''qBt-savePath'' @ ''...''), Assign ''qBt-savePath'' v]"
    by auto
  let ?k2 = "AList.update ''qBt-savePath'' v (AList.update ''save_path'' v kvs)"
  have d2: "data fr2 = BDict ?k2" using f2 by simp
  have m2: "map_of ?k2 ''mapped_files'' = map_of kvs ''mapped_files''"
    by (simp add: update_conv')
  from convert_mapped_files_returns[OF s3 d2] have
    "(target_os = None \<or> map_of kvs ''mapped_files'' = None) \<and> mtr = []
           \<and> fr' = fr\<lparr>data := BDict ?k2\<rparr>
         \<or> (\<exists>os m xs ys. target_os = Some os \<and> map_of kvs ''mapped_files'' = Some m
               \<and> py_iter m = Inr xs \<and> map_result (\<lambda>p. cs p os) xs = Inr ys
               \<and> fr' = fr\<lparr>data := BDict (AList.update ''mapped_files'' (BList ys) ?k2)\<rparr>
               \<and> mtr = [Log DEBUG ''Converting Slashes for mapped_files...'',
                        Assign ''mapped_files'' (BList ys)])"
    unfolding m2 using f2 by auto
  then show thesis
  proof
    assume "(target_os = None \<or> map_of kvs ''mapped_files'' = None) \<and> mtr = []
            \<and> fr' = fr\<lparr>data := BDict ?k2\<rparr>"
    then have plain: "target_os = None \<or> map_of kvs ''mapped_files'' = None" "mtr = []"
      "fr' = fr\<lparr>data := BDict ?k2\<rparr>"
      by simp_all
    show thesis
      by (rule that[of kvs v ?k2 mtr])
         (use d tv plain t0 t1 t2 t3 tr0 tr3 e1 e2 in \<open>simp_all\<close>)
  next
    assume "\<exists>os m xs ys. target_os = Some os \<and> map_of kvs ''mapped_files'' = Some m
               \<and> py_iter m = Inr xs \<and> map_result (\<lambda>p. cs p os) xs = Inr ys
               \<and> fr' = fr\<lparr>data := BDict (AList.update ''mapped_files'' (BList ys) ?k2)\<rparr>
               \<and> mtr = [Log DEBUG ''Converting Slashes for mapped_files...'',
                        Assign ''mapped_files'' (BList ys)]"
    then obtain os m xs ys where
      mapped: "target_os = Some os" "map_of kvs ''mapped_files'' = Some m"
      "py_iter m = Inr xs" "map_result (\<lambda>p. cs p os) xs = Inr ys"
      "fr' = fr\<lparr>data := BDict (AList.update ''mapped_files'' (BList ys) ?k2)\<rparr>"
      "mtr = [Log DEBUG ''Converting Slashes for mapped_files...'', Assign ''mapped_files'' (BList ys)]"
      by blast
    show thesis
      by (rule that[of kvs v "AList.update ''mapped_files'' (BList ys) ?k2" mtr])
         (use d tv mapped t0 t1 t2 t3 tr0 tr3 e1 e2 in \<open>simp_all\<close>)
  qed
qed


lemma written_to_append: "written_to p (tr @ tr') = written_to p tr @ written_to p tr'"
  by (induction p tr rule: written_to.induct) auto

lemma written_to_stores: "written_to p (filter is_store tr) = written_to p tr"
  by (induction p tr rule: written_to.induct) auto

lemma assigned_append: "assigned (tr @ tr') = assigned tr @ assigned tr'"
  by (induction tr rule: assigned.induct) auto

lemma backup_filename_differs: "backup_filename now fr \<noteq> file_path fr"
  by (simp add: backup_filename_def)

lemma map_result_returns:
  "map_result f xs = Inr ys \<Longrightarrow> list_all2 (\<lambda>x y. f x = Inr y) xs ys"
  by (induction xs arbitrary: ys) (auto split: sum.splits)

lemma outcome_simps:
  "raised (r, fr, tr) = r" "object (r, fr, tr) = fr" "effects (r, fr, tr) = tr"
  by (simp_all add: raised_def object_def effects_def)

lemma save_simps:
  "save fr None = [Log INFO (''Saving File '' @ file_path fr @ ''...''), Write (file_path fr) (data fr)]"
  "save fr (Some f) = [Log INFO (''Saving File '' @ f @ ''...''), Write f (data fr)]"
  by (simp_all add: save_def Let_def)

lemma and_then_effects:
  "effects (and_then x f) =
     effects x @ (case raised x of None \<Rightarrow> effects (f (object x)) | Some e \<Rightarrow> [])"
  by (cases x) (auto simp: and_then_def effects_def raised_def object_def split: prod.splits option.splits)

lemma and_then_object:
  "object (and_then x f) = (case raised x of None \<Rightarrow> object (f (object x)) | Some e \<Rightarrow> object x)"
  by (cases x) (auto simp: and_then_def effects_def raised_def object_def split: prod.splits option.splits)

lemma set_save_path_file_path:
  "file_path (object (set_save_path cs now path key target_os save_file create_backup fr))
     = file_path fr"
  by (auto simp: set_save_path_def object_def Let_def split: sum.splits option.splits)

lemma convert_mapped_files_file_path:
  "file_path (object (convert_mapped_files cs target_os fr)) = file_path fr"
  by (auto simp: convert_mapped_files_def object_def Let_def split: sum.splits option.splits)

lemma set_save_path_plain_writes:
  "written_to p (effects (set_save_path cs now path key target_os False False fr)) = []"
  by (auto simp: set_save_path_def effects_def Let_def split: sum.splits option.splits)

lemma convert_mapped_files_writes:
  "written_to p (effects (convert_mapped_files cs target_os fr)) = []"
  by (auto simp: convert_mapped_files_def effects_def Let_def split: sum.splits option.splits)

lemma set_save_paths_plain_writes:
  assumes "p \<noteq> file_path fr"
  shows "written_to p (effects (set_save_paths cs now path target_os save_file False fr)) = []"
  using assms assms[symmetric]
  by (simp add: set_save_paths_def and_then_effects and_then_object written_to_append
      set_save_path_plain_writes convert_mapped_files_writes
      set_save_path_file_path convert_mapped_files_file_path outcome_simps save_simps
      split: option.splits)

lemma set_save_paths_backup_first:
  "effects (set_save_paths cs now path target_os save_file True fr)
     = save fr (Some (backup_filename now fr))
       @ effects (set_save_paths cs now path target_os save_file False fr)"
  by (simp add: set_save_paths_def and_then_effects outcome_simps)

lemma replace_paths_returns:
  assumes "raised (replace_paths cs now existing_path new_path target_os save_file create_backup fr) = None"
  shows "\<exists>s. save_path fr = Inr (BStr s)"
proof (cases "save_path fr")
  case (Inl e)
  with assms show ?thesis by (simp add: replace_paths_def outcome_simps)
next
  case (Inr sp)
  with assms show ?thesis
    by (cases sp) (simp_all add: replace_paths_def outcome_simps)
qed

lemma set_save_paths_equal_paths:
  assumes "raised (set_save_paths cs now path target_os save_file create_backup fr) = None"
  shows "\<exists>v. (case target_os of None \<Rightarrow> Inr (BStr path) | Some os \<Rightarrow> cs (BStr path) os) = Inr v
           \<and> save_path (object (set_save_paths cs now path target_os save_file create_backup fr)) = Inr v
           \<and> qbt_save_path (object (set_save_paths cs now path target_os save_file create_backup fr)) = Inr v"
proof -
  obtain fr' tr where o: "set_save_paths cs now path target_os save_file create_backup fr = (None, fr', tr)"
    using assms by (cases "set_save_paths cs now path target_os save_file create_backup fr")
      (auto simp: raised_def)
  from set_save_paths_returns[OF o] obtain kvs v kvs' mtr where
    tv: "(case target_os of None \<Rightarrow> Inr (BStr path) | Some os \<Rightarrow> cs (BStr path) os) = Inr v"
    and f: "fr' = fr\<lparr>data := BDict kvs'\<rparr>"
    and k: "(target_os = None \<or> map_of kvs ''mapped_files'' = None) \<and> mtr = []
           \<and> kvs' = AList.update ''qBt-savePath'' v (AList.update ''save_path'' v kvs)
         \<or> (\<exists>os m xs ys. target_os = Some os \<and> map_of kvs ''mapped_files'' = Some m
               \<and> py_iter m = Inr xs \<and> map_result (\<lambda>p. cs p os) xs = Inr ys
               \<and> kvs' = AList.update ''mapped_files'' (BList ys)
                          (AList.update ''qBt-savePath'' v (AList.update ''save_path'' v kvs))
               \<and> mtr = [Log DEBUG ''Converting Slashes for mapped_files...'',
                        Assign ''mapped_files'' (BList ys)])"
    by metis
  from k have "map_of kvs' ''save_path'' = Some v \<and> map_of kvs' ''qBt-savePath'' = Some v"
    by (auto simp: update_conv')
  then show ?thesis using tv f o
    by (simp add: save_path_def qbt_save_path_def outcome_simps)
qed

section \<open>The two save paths stay equal (C10)\<close>

text \<open>
  C10. When \<open>set_save_paths\<close> returns, the primary save path and the client save path
  of the record are both the value given, translated when a target is given. When
  \<open>replace_paths\<close> returns, the two save paths of the record are equal as well.
\<close>
theorem save_paths_stay_equal:
  "(raised (set_save_paths cs now path target_os save_file create_backup fr) = None \<longrightarrow>
      (\<exists>v. (case target_os of None \<Rightarrow> Inr (BStr path) | Some os \<Rightarrow> cs (BStr path) os) = Inr v
         \<and> save_path (object (set_save_paths cs now path target_os save_file create_backup fr)) = Inr v
         \<and> qbt_save_path (object (set_save_paths cs now path target_os save_file create_backup fr)) = Inr v))
   \<and> (raised (replace_paths cs now existing_path new_path target_os save_file create_backup fr) = None \<longrightarrow>
      (\<exists>v. save_path (object (replace_paths cs now existing_path new_path target_os save_file create_backup fr)) = Inr v
         \<and> qbt_save_path (object (replace_paths cs now existing_path new_path target_os save_file create_backup fr)) = Inr v))"
proof (intro conjI impI)
  assume "raised (set_save_paths cs now path target_os save_file create_backup fr) = None"
  then show "\<exists>v. (case target_os of None \<Rightarrow> Inr (BStr path) | Some os \<Rightarrow> cs (BStr path) os) = Inr v
         \<and> save_path (object (set_save_paths cs now path target_os save_file create_backup fr)) = Inr v
         \<and> qbt_save_path (object (set_save_paths cs now path target_os save_file create_backup fr)) = Inr v"
    by (rule set_save_paths_equal_paths)
next
  assume r: "raised (replace_paths cs now existing_path new_path target_os save_file create_backup fr) = None"
  then obtain s where s: "save_path fr = Inr (BStr s)"
    using replace_paths_returns by blast
  let ?inner = "set_save_paths cs now (str_replace s existing_path new_path) target_os save_file create_backup fr"
  have ro: "raised (replace_paths cs now existing_path new_path target_os save_file create_backup fr) = raised ?inner"
    and oo: "object (replace_paths cs now existing_path new_path target_os save_file create_backup fr) = object ?inner"
    by (simp_all add: replace_paths_unfold[OF s] raised_def object_def split: prod.splits)
  from r ro have "raised ?inner = None" by simp
  from set_save_paths_equal_paths[OF this] show
    "\<exists>v. save_path (object (replace_paths cs now existing_path new_path target_os save_file create_backup fr)) = Inr v
         \<and> qbt_save_path (object (replace_paths cs now existing_path new_path target_os save_file create_backup fr)) = Inr v"
    unfolding oo by blast
qed

text \<open>C10 on the record \<open>movies\<close>, with a translation to Windows.\<close>

theorem save_paths_stay_equal_witness:
  "raised (set_save_paths convert_slashes ''20260101000000'' ''/mnt/new/data/movies'' (Some ''Windows'') True True movies) = None
   \<and> raised (replace_paths convert_slashes ''20260101000000'' ''/mnt/old'' ''/mnt/new'' (Some ''Windows'') True True movies) = None
   \<and> save_path (object (set_save_paths convert_slashes ''20260101000000'' ''/mnt/new/data/movies'' (Some ''Windows'') True True movies))
       = qbt_save_path (object (set_save_paths convert_slashes ''20260101000000'' ''/mnt/new/data/movies'' (Some ''Windows'') True True movies))
   \<and> save_path (object (replace_paths convert_slashes ''20260101000000'' ''/mnt/old'' ''/mnt/new'' (Some ''Windows'') True True movies))
       = qbt_save_path (object (replace_paths convert_slashes ''20260101000000'' ''/mnt/old'' ''/mnt/new'' (Some ''Windows'') True True movies))"
proof -
  have a: "raised (set_save_paths convert_slashes ''20260101000000'' ''/mnt/new/data/movies'' (Some ''Windows'') True True movies) = None"
    by (simp add: eval_defs movies_def)
  have b: "raised (replace_paths convert_slashes ''20260101000000'' ''/mnt/old'' ''/mnt/new'' (Some ''Windows'') True True movies) = None"
    by (simp add: eval_defs movies_def)
  from save_paths_stay_equal[of convert_slashes "''20260101000000''" "''/mnt/new/data/movies''"
      "Some ''Windows''" True True movies "''/mnt/old''" "''/mnt/new''"] a b
  show ?thesis by auto
qed


section \<open>One backup before the fields, one write after them (C5)\<close>

text \<open>
  C5. When \<open>set_save_paths\<close> is called with a backup and a save and returns, its stores
  are, in this order: the write of the state before the call to the backup path, the
  assignment of the primary save path, the assignment of the client save path, at most
  one assignment of the mapped files, and the write of the final state to the path
  of the record. The backup path is written once and the path of the record once.
\<close>
theorem set_save_paths_one_backup_one_persist:
  assumes "set_save_paths cs now path target_os True True fr = (None, fr', tr)"
  shows "\<exists>v ms. filter is_store tr =
            [Write (backup_filename now fr) (data fr),
             Assign ''save_path'' v, Assign ''qBt-savePath'' v]
            @ ms @ [Write (file_path fr) (data fr')]
          \<and> (ms = [] \<or> (\<exists>l. ms = [Assign ''mapped_files'' l]))
          \<and> written_to (backup_filename now fr) tr = [data fr]
          \<and> written_to (file_path fr) tr = [data fr']"
proof (rule set_save_paths_returns[OF assms])
  fix kvs v kvs' mtr
  assume f: "fr' = fr\<lparr>data := BDict kvs'\<rparr>"
    and t: "tr = (if True then save fr (Some (backup_filename now fr)) else [])
              @ [Log DEBUG ''Setting save_path...'', Assign ''save_path'' v,
                 Log DEBUG ''Setting qBt-savePath...'', Assign ''qBt-savePath'' v]
              @ mtr @ (if True then save fr' None else [])"
    and k: "(target_os = None \<or> map_of kvs ''mapped_files'' = None) \<and> mtr = []
           \<and> kvs' = AList.update ''qBt-savePath'' v (AList.update ''save_path'' v kvs)
         \<or> (\<exists>os m xs ys. target_os = Some os \<and> map_of kvs ''mapped_files'' = Some m
               \<and> py_iter m = Inr xs \<and> map_result (\<lambda>p. cs p os) xs = Inr ys
               \<and> kvs' = AList.update ''mapped_files'' (BList ys)
                          (AList.update ''qBt-savePath'' v (AList.update ''save_path'' v kvs))
               \<and> mtr = [Log DEBUG ''Converting Slashes for mapped_files...'',
                        Assign ''mapped_files'' (BList ys)])"
  from k have m: "mtr = [] \<or> (\<exists>l. mtr = [Log DEBUG ''Converting Slashes for mapped_files...'',
                        Assign ''mapped_files'' l])"
    by blast
  have fp: "file_path fr' = file_path fr" using f by simp
  have ne: "backup_filename now fr \<noteq> file_path fr" "file_path fr \<noteq> backup_filename now fr"
    using backup_filename_differs[of now fr] by auto
  have st: "filter is_store tr =
            [Write (backup_filename now fr) (data fr),
             Assign ''save_path'' v, Assign ''qBt-savePath'' v]
            @ filter is_store mtr @ [Write (file_path fr) (data fr')]"
    by (simp add: t save_simps fp)
  have ms: "filter is_store mtr = [] \<or> (\<exists>l. filter is_store mtr = [Assign ''mapped_files'' l])"
    using m by auto
  have wm: "written_to p mtr = []" for p
    using m by auto
  have wb: "written_to (backup_filename now fr) tr = [data fr]"
    using ne by (simp add: t save_simps fp written_to_append wm)
  have wf: "written_to (file_path fr) tr = [data fr']"
    using ne by (simp add: t save_simps fp written_to_append wm)
  from st ms wb wf show ?thesis by blast
qed

text \<open>C5 on the record \<open>movies\<close>, with a translation to Windows.\<close>

theorem set_save_paths_one_backup_one_persist_witness:
  "set_save_paths convert_slashes ''20260101000000'' ''/mnt/new/data/movies'' (Some ''Windows'')
     True True movies
   = (None, object (set_save_paths convert_slashes ''20260101000000'' ''/mnt/new/data/movies''
                      (Some ''Windows'') True True movies),
      effects (set_save_paths convert_slashes ''20260101000000'' ''/mnt/new/data/movies''
                 (Some ''Windows'') True True movies))
   \<and> written_to (backup_filename ''20260101000000'' movies)
        (effects (set_save_paths convert_slashes ''20260101000000'' ''/mnt/new/data/movies''
                    (Some ''Windows'') True True movies)) = [data movies]
   \<and> written_to ''/bt/a.fastresume''
        (effects (set_save_paths convert_slashes ''20260101000000'' ''/mnt/new/data/movies''
                    (Some ''Windows'') True True movies))
       = [data (object (set_save_paths convert_slashes ''20260101000000'' ''/mnt/new/data/movies''
                          (Some ''Windows'') True True movies))]"
proof -
  have h: "set_save_paths convert_slashes ''20260101000000'' ''/mnt/new/data/movies'' (Some ''Windows'')
     True True movies
   = (None, object (set_save_paths convert_slashes ''20260101000000'' ''/mnt/new/data/movies''
                      (Some ''Windows'') True True movies),
      effects (set_save_paths convert_slashes ''20260101000000'' ''/mnt/new/data/movies''
                 (Some ''Windows'') True True movies))"
    by (simp add: eval_defs movies_def)
  have fp: "file_path movies = ''/bt/a.fastresume''" by (simp add: movies_def)
  from set_save_paths_one_backup_one_persist[OF h] show ?thesis
    using h fp by auto
qed

section \<open>The backup holds the state before the call (C6)\<close>

lemma set_save_path_backup_first:
  assumes "key = ''save_path'' \<or> key = ''qBt-savePath''"
  shows "\<exists>rest. filter is_store (effects (set_save_path cs now path key target_os save_file True fr))
           = Write (backup_filename now fr) (data fr) # rest
         \<and> written_to (backup_filename now fr) rest = []"
proof -
  have ne: "file_path fr \<noteq> backup_filename now fr"
    using backup_filename_differs[of now fr] by auto
  show ?thesis using assms ne
    by (auto simp: set_save_path_def outcome_simps save_simps Let_def
        split: sum.splits option.splits)
qed

lemma set_save_paths_backup_content:
  "\<exists>rest. filter is_store (effects (set_save_paths cs now path target_os save_file True fr))
           = Write (backup_filename now fr) (data fr) # rest
         \<and> written_to (backup_filename now fr) rest = []"
proof -
  let ?rest = "filter is_store (effects (set_save_paths cs now path target_os save_file False fr))"
  have "written_to (backup_filename now fr) ?rest = []"
    by (simp add: written_to_stores set_save_paths_plain_writes backup_filename_differs)
  then show ?thesis
    by (simp add: set_save_paths_backup_first save_simps)
qed

text \<open>
  C6. For each of the three setters called with a backup (\<open>set_save_path\<close> with one
  of the two keys, \<open>set_save_paths\<close>, and \<open>replace_paths\<close> on a record whose save
  path is a string), the first store of the call is the write of the state of the
  record before the call to the backup path, and nothing else is written to that path.
\<close>
theorem backup_holds_prior_state:
  "(key = ''save_path'' \<or> key = ''qBt-savePath'' \<longrightarrow>
      (\<exists>rest. filter is_store (effects (set_save_path cs now path key target_os save_file True fr))
                = Write (backup_filename now fr) (data fr) # rest
              \<and> written_to (backup_filename now fr) rest = []))
   \<and> (\<exists>rest. filter is_store (effects (set_save_paths cs now path target_os save_file True fr))
                = Write (backup_filename now fr) (data fr) # rest
              \<and> written_to (backup_filename now fr) rest = [])
   \<and> (\<forall>s. save_path fr = Inr (BStr s) \<longrightarrow>
      (\<exists>rest. filter is_store
                 (effects (replace_paths cs now existing_path new_path target_os save_file True fr))
                = Write (backup_filename now fr) (data fr) # rest
              \<and> written_to (backup_filename now fr) rest = []))"
proof (intro conjI impI allI)
  assume "key = ''save_path'' \<or> key = ''qBt-savePath''"
  then show "\<exists>rest. filter is_store (effects (set_save_path cs now path key target_os save_file True fr))
                = Write (backup_filename now fr) (data fr) # rest
              \<and> written_to (backup_filename now fr) rest = []"
    by (rule set_save_path_backup_first)
next
  show "\<exists>rest. filter is_store (effects (set_save_paths cs now path target_os save_file True fr))
                = Write (backup_filename now fr) (data fr) # rest
              \<and> written_to (backup_filename now fr) rest = []"
    by (rule set_save_paths_backup_content)
next
  fix s assume s: "save_path fr = Inr (BStr s)"
  have "filter is_store
          (effects (replace_paths cs now existing_path new_path target_os save_file True fr))
        = filter is_store
            (effects (set_save_paths cs now (str_replace s existing_path new_path) target_os
               save_file True fr))"
    by (simp add: replace_paths_unfold[OF s] effects_def split: prod.splits option.splits)
  then show "\<exists>rest. filter is_store
                 (effects (replace_paths cs now existing_path new_path target_os save_file True fr))
                = Write (backup_filename now fr) (data fr) # rest
              \<and> written_to (backup_filename now fr) rest = []"
    using set_save_paths_backup_content by simp
qed

text \<open>C6 on the record \<open>movies\<close>.\<close>

theorem backup_holds_prior_state_witness:
  "save_path movies = Inr (BStr ''/mnt/old/data/movies'')
   \<and> written_to (backup_filename ''20260101000000'' movies)
        (effects (set_save_path convert_slashes ''20260101000000'' ''/x'' ''save_path'' None True True movies))
       = [data movies]
   \<and> written_to (backup_filename ''20260101000000'' movies)
        (effects (replace_paths convert_slashes ''20260101000000'' ''/mnt/old'' ''/mnt/new'' None True True movies))
       = [data movies]"
proof -
  have h: "save_path movies = Inr (BStr ''/mnt/old/data/movies'')"
    by (simp add: save_path_def movies_def)
  from backup_holds_prior_state[where key = "''save_path''" and cs = convert_slashes
      and now = "''20260101000000''" and path = "''/x''" and target_os = None
      and save_file = True and fr = movies and existing_path = "''/mnt/old''"
      and new_path = "''/mnt/new''"] h
  obtain r1 r2 where
    "filter is_store (effects (set_save_path convert_slashes ''20260101000000'' ''/x'' ''save_path'' None True True movies))
       = Write (backup_filename ''20260101000000'' movies) (data movies) # r1"
    "written_to (backup_filename ''20260101000000'' movies) r1 = []"
    "filter is_store (effects (replace_paths convert_slashes ''20260101000000'' ''/mnt/old'' ''/mnt/new'' None True True movies))
       = Write (backup_filename ''20260101000000'' movies) (data movies) # r2"
    "written_to (backup_filename ''20260101000000'' movies) r2 = []"
    by auto
  then have
    "written_to (backup_filename ''20260101000000'' movies)
       (filter is_store (effects (set_save_path convert_slashes ''20260101000000'' ''/x'' ''save_path'' None True True movies)))
     = [data movies]"
    "written_to (backup_filename ''20260101000000'' movies)
       (filter is_store (effects (replace_paths convert_slashes ''20260101000000'' ''/mnt/old'' ''/mnt/new'' None True True movies)))
     = [data movies]"
    by simp_all
  then show ?thesis using h by (simp add: written_to_stores)
qed

section \<open>A key that is not a save path (C8)\<close>

text \<open>
  C8. With a key other than the two save-path keys, \<open>set_save_path\<close> raises the
  \<^verbatim>\<open>KeyError\<close>, leaves the record as it was and has no effect at all: no backup, no
  assignment, no write.
\<close>
theorem set_save_path_invalid_key:
  assumes "key \<noteq> ''save_path''" and "key \<noteq> ''qBt-savePath''"
  shows "set_save_path cs now path key target_os save_file create_backup fr =
           (Some (KeyError (''When setting a save path, key must be `save_path` or `qBt-savePath`. ''
                            @ ''Received '' @ key)), fr, [])"
  using assms by (simp add: set_save_path_def)

text \<open>C8 with the key \<open>mapped_files\<close>, a backup and a save asked for.\<close>

theorem set_save_path_invalid_key_witness:
  "''mapped_files'' \<noteq> ''save_path'' \<and> ''mapped_files'' \<noteq> ''qBt-savePath''
   \<and> raised (set_save_path convert_slashes ''20260101000000'' ''/x'' ''mapped_files''
                (Some ''Windows'') True True movies)
       = Some (KeyError ''When setting a save path, key must be `save_path` or `qBt-savePath`. Received mapped_files'')
   \<and> object (set_save_path convert_slashes ''20260101000000'' ''/x'' ''mapped_files''
                (Some ''Windows'') True True movies) = movies
   \<and> effects (set_save_path convert_slashes ''20260101000000'' ''/x'' ''mapped_files''
                (Some ''Windows'') True True movies) = []"
proof -
  have a: "''mapped_files'' \<noteq> ''save_path''" and b: "''mapped_files'' \<noteq> ''qBt-savePath''"
    by simp_all
  from set_save_path_invalid_key[OF a b] show ?thesis
    by (simp add: outcome_simps)
qed

section \<open>The mapped files and the other fields (C9)\<close>

lemma assigned_save: "assigned (save fr f) = []"
  by (cases f) (simp_all add: save_simps)

lemma py_getitem_update_other:
  "k \<noteq> k' \<Longrightarrow> py_getitem (BDict (AList.update k' v kvs)) k = py_getitem (BDict kvs) k"
  by (simp add: update_conv')

text \<open>
  C9. When \<open>set_save_paths\<close> returns, the keys it assigned are the two save paths,
  followed by \<open>mapped_files\<close> exactly when a target is given and the record has mapped
  files. Every key other than these three reads as before, and so does the path of
  the record. Without a target, or without mapped files, \<open>mapped_files\<close> reads as
  before too. With a target and a list of mapped files, the new list holds the
  translation of every entry, in order.
\<close>

theorem mapped_files_rewritten_iff:
  assumes "set_save_paths cs now path target_os save_file create_backup fr = (None, fr', tr)"
  shows "assigned tr = [''save_path'', ''qBt-savePath'']
           @ (if target_os \<noteq> None \<and> mapped_files fr \<noteq> Inr None then [''mapped_files''] else [])
       \<and> (\<forall>k. k \<noteq> ''save_path'' \<and> k \<noteq> ''qBt-savePath'' \<and> k \<noteq> ''mapped_files''
              \<longrightarrow> py_getitem (data fr') k = py_getitem (data fr) k)
       \<and> file_path fr' = file_path fr
       \<and> (target_os = None \<or> mapped_files fr = Inr None
              \<longrightarrow> mapped_files fr' = mapped_files fr
                \<and> py_getitem (data fr') ''mapped_files'' = py_getitem (data fr) ''mapped_files'')
       \<and> (\<forall>os xs. target_os = Some os \<and> mapped_files fr = Inr (Some (BList xs))
              \<longrightarrow> (\<exists>ys. list_all2 (\<lambda>x y. cs x os = Inr y) xs ys
                      \<and> mapped_files fr' = Inr (Some (BList ys))))"
proof (rule set_save_paths_returns[OF assms])
  fix kvs kvs' :: "(string \<times> bvalue) list" and v :: bvalue and mtr :: "effect list"
  let ?k2 = "AList.update ''qBt-savePath'' v (AList.update ''save_path'' v kvs)"
  assume d: "data fr = BDict kvs"
    and f: "fr' = fr\<lparr>data := BDict kvs'\<rparr>"
    and t: "tr = (if create_backup then save fr (Some (backup_filename now fr)) else [])
              @ [Log DEBUG ''Setting save_path...'', Assign ''save_path'' v,
                 Log DEBUG ''Setting qBt-savePath...'', Assign ''qBt-savePath'' v]
              @ mtr @ (if save_file then save fr' None else [])"
    and k: "(target_os = None \<or> map_of kvs ''mapped_files'' = None) \<and> mtr = []
           \<and> kvs' = ?k2
         \<or> (\<exists>os m xs ys. target_os = Some os \<and> map_of kvs ''mapped_files'' = Some m
               \<and> py_iter m = Inr xs \<and> map_result (\<lambda>p. cs p os) xs = Inr ys
               \<and> kvs' = AList.update ''mapped_files'' (BList ys) ?k2
               \<and> mtr = [Log DEBUG ''Converting Slashes for mapped_files...'',
                        Assign ''mapped_files'' (BList ys)])"
  have mf: "mapped_files fr = Inr (map_of kvs ''mapped_files'')"
    by (rule mapped_files_dict[OF d])
  have d': "data fr' = BDict kvs'" using f by simp
  have mf': "mapped_files fr' = Inr (map_of kvs' ''mapped_files'')"
    by (rule mapped_files_dict[OF d'])
  have fp: "file_path fr' = file_path fr" using f by simp
  have at: "assigned tr = [''save_path'', ''qBt-savePath''] @ assigned mtr"
    by (simp add: t assigned_append assigned_save)
  from k show ?thesis
  proof
    assume "(target_os = None \<or> map_of kvs ''mapped_files'' = None) \<and> mtr = [] \<and> kvs' = ?k2"
    then have c: "target_os = None \<or> map_of kvs ''mapped_files'' = None"
      and m: "mtr = []" and k': "kvs' = ?k2" by simp_all
    have 1: "assigned tr = [''save_path'', ''qBt-savePath'']
           @ (if target_os \<noteq> None \<and> mapped_files fr \<noteq> Inr None then [''mapped_files''] else [])"
      using c by (auto simp: at m mf)
    have 2: "py_getitem (data fr') k = py_getitem (data fr) k"
      if "k \<noteq> ''save_path''" "k \<noteq> ''qBt-savePath''" for k
      using that by (simp add: d d' k' update_conv')
    have 3: "mapped_files fr' = mapped_files fr"
      by (simp add: mf mf' k' update_conv')
    have 5: "\<exists>ys. list_all2 (\<lambda>x y. cs x os = Inr y) xs ys
                      \<and> mapped_files fr' = Inr (Some (BList ys))"
      if "target_os = Some os" "mapped_files fr = Inr (Some (BList xs))" for os xs
      using that c by (simp add: mf)
    show ?thesis using 1 2 3 5 fp by simp
  next
    assume "\<exists>os m xs ys. target_os = Some os \<and> map_of kvs ''mapped_files'' = Some m
               \<and> py_iter m = Inr xs \<and> map_result (\<lambda>p. cs p os) xs = Inr ys
               \<and> kvs' = AList.update ''mapped_files'' (BList ys) ?k2
               \<and> mtr = [Log DEBUG ''Converting Slashes for mapped_files...'',
                        Assign ''mapped_files'' (BList ys)]"
    then obtain os m xs ys where
      tos: "target_os = Some os" and mm: "map_of kvs ''mapped_files'' = Some m"
      and it: "py_iter m = Inr xs" and mr: "map_result (\<lambda>p. cs p os) xs = Inr ys"
      and k': "kvs' = AList.update ''mapped_files'' (BList ys) ?k2"
      and m: "mtr = [Log DEBUG ''Converting Slashes for mapped_files...'',
                        Assign ''mapped_files'' (BList ys)]"
      by blast
    have 1: "assigned tr = [''save_path'', ''qBt-savePath'']
           @ (if target_os \<noteq> None \<and> mapped_files fr \<noteq> Inr None then [''mapped_files''] else [])"
      by (simp add: at m mf tos mm)
    have 2: "py_getitem (data fr') k = py_getitem (data fr) k"
      if "k \<noteq> ''save_path''" "k \<noteq> ''qBt-savePath''" "k \<noteq> ''mapped_files''" for k
      using that by (simp add: d d' k' update_conv')
    have 4: "\<not> (target_os = None \<or> mapped_files fr = Inr None)"
      by (simp add: tos mf mm)
    have 5: "\<exists>ys. list_all2 (\<lambda>x y. cs x os' = Inr y) xs' ys
                      \<and> mapped_files fr' = Inr (Some (BList ys))"
      if "target_os = Some os'" "mapped_files fr = Inr (Some (BList xs'))" for os' xs'
    proof -
      from that tos have o: "os' = os" by simp
      from that mf mm have "m = BList xs'" by simp
      with it have x: "xs = xs'" by simp
      have "list_all2 (\<lambda>x y. cs x os = Inr y) xs ys"
        by (rule map_result_returns[OF mr])
      moreover have "mapped_files fr' = Inr (Some (BList ys))"
        by (simp add: mf' k' update_conv')
      ultimately show ?thesis using o x by blast
    qed
    show ?thesis using 1 2 4 5 fp by blast
  qed
qed

text \<open>C9 on the record \<open>movies\<close>, once with the target Windows and once without a target.\<close>

theorem mapped_files_rewritten_iff_witness:
  "mapped_files movies = Inr (Some (BList [BStr ''cd1/a.avi'', BStr ''cd2/b.avi'']))
   \<and> raised (set_save_paths convert_slashes ''20260101000000'' ''/mnt/new'' (Some ''Windows'') False False movies) = None
   \<and> raised (set_save_paths convert_slashes ''20260101000000'' ''/mnt/new'' None False False movies) = None
   \<and> mapped_files (object (set_save_paths convert_slashes ''20260101000000'' ''/mnt/new'' (Some ''Windows'') False False movies))
       = Inr (Some (BList [BStr [CHR ''c'', CHR ''d'', CHR ''1'', CHR 0x5C, CHR ''a'', CHR ''.'', CHR ''a'', CHR ''v'', CHR ''i''],
                           BStr [CHR ''c'', CHR ''d'', CHR ''2'', CHR 0x5C, CHR ''b'', CHR ''.'', CHR ''a'', CHR ''v'', CHR ''i'']]))
   \<and> mapped_files (object (set_save_paths convert_slashes ''20260101000000'' ''/mnt/new'' None False False movies))
       = mapped_files movies
   \<and> assigned (effects (set_save_paths convert_slashes ''20260101000000'' ''/mnt/new'' (Some ''Windows'') False False movies))
       = [''save_path'', ''qBt-savePath'', ''mapped_files'']
   \<and> assigned (effects (set_save_paths convert_slashes ''20260101000000'' ''/mnt/new'' None False False movies))
       = [''save_path'', ''qBt-savePath'']"
proof -
  let ?w = "set_save_paths convert_slashes ''20260101000000'' ''/mnt/new'' (Some ''Windows'') False False movies"
  let ?n = "set_save_paths convert_slashes ''20260101000000'' ''/mnt/new'' None False False movies"
  have mf: "mapped_files movies = Inr (Some (BList [BStr ''cd1/a.avi'', BStr ''cd2/b.avi'']))"
    by (simp add: mapped_files_def movies_def)
  have hw: "?w = (None, object ?w, effects ?w)" by (simp add: eval_defs movies_def)
  have hn: "?n = (None, object ?n, effects ?n)" by (simp add: eval_defs movies_def)
  have rw: "raised ?w = None" and rn: "raised ?n = None"
    by (simp_all add: eval_defs movies_def)
  have ow: "mapped_files (object ?w)
       = Inr (Some (BList [BStr [CHR ''c'', CHR ''d'', CHR ''1'', CHR 0x5C, CHR ''a'', CHR ''.'', CHR ''a'', CHR ''v'', CHR ''i''],
                           BStr [CHR ''c'', CHR ''d'', CHR ''2'', CHR 0x5C, CHR ''b'', CHR ''.'', CHR ''a'', CHR ''v'', CHR ''i'']]))"
    by (simp add: eval_defs movies_def)
  from mapped_files_rewritten_iff[OF hw] mf
  have aw: "assigned (effects ?w) = [''save_path'', ''qBt-savePath'', ''mapped_files'']"
    by simp
  from mapped_files_rewritten_iff[OF hn] mf
  have an: "assigned (effects ?n) = [''save_path'', ''qBt-savePath'']"
    and mn: "mapped_files (object ?n) = mapped_files movies"
    by simp_all
  show ?thesis using mf rw rn ow aw an mn by simp
qed

section \<open>The two required keys (C2)\<close>

text \<open>
  C2. When the file decodes to a dictionary: if the dictionary lacks the primary
  save-path key or the client save-path key, the construction raises the
  \<^verbatim>\<open>ValueError\<close> of a missing key and gives no record; if it has both keys, the
  construction gives the record of that file with the whole dictionary as its data.
\<close>

theorem FastResume_init_required_keys:
  assumes "nodes env (realpath env path) = Some (File (Inr (BDict kvs)))"
  shows "(''save_path'' \<notin> fst ` set kvs \<or> ''qBt-savePath'' \<notin> fst ` set kvs
            \<longrightarrow> fst (FastResume_init env path)
                  = Inl (ValueError ''Missing required keys for a qBittorrent .fastresume file''))
       \<and> (''save_path'' \<in> fst ` set kvs \<and> ''qBt-savePath'' \<in> fst ` set kvs
            \<longrightarrow> fst (FastResume_init env path)
                  = Inr \<lparr>file_path = realpath env path, data = BDict kvs\<rparr>)"
  using assms
  by (auto simp: FastResume_init_def exists_def isfile_def bread_def Let_def split: bool.splits)

lemmas env_defs = bt_env_def bt_nodes_def bt_env_no_zip_def

text \<open>
  C2 on two files of the directory \<open>/bt\<close>: one that lacks the client save path and
  one that has both keys.
\<close>

theorem FastResume_init_required_keys_witness:
  "nodes bt_env (realpath bt_env ''/bt/c.fastresume'')
     = Some (File (Inr (BDict [(''save_path'', BStr ''/mnt/old/c'')])))
   \<and> nodes bt_env (realpath bt_env ''/bt/a.fastresume'') = Some (File (Inr (data movies)))
   \<and> fst (FastResume_init bt_env ''/bt/c.fastresume'')
       = Inl (ValueError ''Missing required keys for a qBittorrent .fastresume file'')
   \<and> fst (FastResume_init bt_env ''/bt/a.fastresume'') = Inr movies"
proof -
  have c: "nodes bt_env (realpath bt_env ''/bt/c.fastresume'')
     = Some (File (Inr (BDict [(''save_path'', BStr ''/mnt/old/c'')])))"
    by (simp add: env_defs)
  have a: "nodes bt_env (realpath bt_env ''/bt/a.fastresume'')
     = Some (File (Inr (BDict [(''qBt-savePath'', BStr ''/mnt/old/data/movies''),
                          (''mapped_files'', BList [BStr ''cd1/a.avi'', BStr ''cd2/b.avi'']),
                          (''save_path'', BStr ''/mnt/old/data/movies'')])))"
    by (simp add: env_defs movies_def)
  have r: "realpath bt_env ''/bt/a.fastresume'' = ''/bt/a.fastresume''"
    by (simp add: env_defs)
  from FastResume_init_required_keys[OF c]
  have 1: "fst (FastResume_init bt_env ''/bt/c.fastresume'')
       = Inl (ValueError ''Missing required keys for a qBittorrent .fastresume file'')"
    by simp
  from FastResume_init_required_keys[OF a]
  have 2: "fst (FastResume_init bt_env ''/bt/a.fastresume'') = Inr movies"
    by (simp add: r movies_def)
  show ?thesis using c a 1 2 by (simp add: movies_def)
qed

section \<open>Facts about the discovery\<close>

lemma yielded_append: "yielded (tr @ tr') = yielded tr @ yielded tr'"
  by (induction tr rule: yielded.induct) auto

lemma warnings_append: "warnings (tr @ tr') = warnings tr @ warnings tr'"
  by (induction tr rule: warnings.induct) auto

lemma FastResume_init_quiet:
  "yielded (snd (FastResume_init env p)) = []" "warnings (snd (FastResume_init env p)) = []"
  by (auto simp: FastResume_init_def Let_def split: sum.splits bool.splits)

lemma after_simps: "fst (after tr x) = fst x" "snd (after tr x) = tr @ snd x"
  by (simp_all add: after_def)

lemma matching_Nil: "matching env d ex [] = []"
  by (simp add: matching_def)

lemma matching_Cons:
  "matching env d ex (file # files) =
     (if endswith file ''.fastresume'' then
        (case fst (FastResume_init env (join d file)) of
           Inl e \<Rightarrow> []
         | Inr fr \<Rightarrow> if has_existing_path ex fr = Inr True then [fr] else [])
      else []) @ matching env d ex files"
  by (simp add: matching_def)

lemma matching_append:
  "matching env d ex (xs @ ys) = matching env d ex xs @ matching env d ex ys"
  by (simp add: matching_def)


lemma discover_files_yields:
  "prefix (yielded (snd (discover_files env d ex roe files))) (matching env d ex files)
   \<and> (fst (discover_files env d ex roe files) = None
        \<longrightarrow> yielded (snd (discover_files env d ex roe files)) = matching env d ex files)"
proof (induction files)
  case Nil
  show ?case by (simp add: matching_Nil)
next
  case (Cons f files)
  obtain r tr where i: "FastResume_init env (join d f) = (r, tr)"
    by (cases "FastResume_init env (join d f)") auto
  have q: "yielded tr = []" using FastResume_init_quiet(1)[of env "join d f"] i by simp
  show ?case
  proof (cases "endswith f ''.fastresume''")
    case False
    with Cons show ?thesis by (simp add: matching_Cons)
  next
    case True
    show ?thesis
    proof (cases r)
      case (Inl e)
      with True i q Cons show ?thesis
        by (cases roe) (simp_all add: matching_Cons after_simps yielded_append)
    next
      case (Inr fr)
      show ?thesis
      proof (cases "has_existing_path ex fr")
        case (Inl e)
        with True i q Inr show ?thesis
          by (simp add: matching_Cons)
      next
        case b: (Inr b)
        with True i q Inr Cons show ?thesis
          by (cases b) (simp_all add: matching_Cons after_simps yielded_append)
      qed
    qed
  qed
qed


lemma valid_file_constructs:
  assumes "valid_file env p"
  obtains fr tr s q where "FastResume_init env p = (Inr fr, tr)"
    and "save_path fr = Inr (BStr s)" and "qbt_save_path fr = Inr (BStr q)"
proof -
  obtain r tr where i: "FastResume_init env p = (r, tr)"
    by (cases "FastResume_init env p") auto
  with assms obtain fr where r: "r = Inr fr"
    by (cases r) (auto simp: valid_file_def)
  from assms i r obtain s where s: "save_path fr = Inr (BStr s)"
    by (cases "save_path fr") (auto simp: valid_file_def split: bvalue.splits)
  from assms i r s obtain q where "qbt_save_path fr = Inr (BStr q)"
    by (cases "qbt_save_path fr") (auto simp: valid_file_def split: bvalue.splits)
  with i r s show thesis using that by blast
qed

lemma has_existing_path_strings:
  assumes "save_path fr = Inr (BStr s)" and "qbt_save_path fr = Inr (BStr q)"
  shows "has_existing_path ex fr = Inr (str_in ex s \<or> str_in ex q)"
  using assms by (simp add: has_existing_path_def split: bool.splits)

lemma malformed_file_raises:
  assumes "malformed_file env p"
  obtains e tr where "FastResume_init env p = (Inl e, tr)" and "caught e"
proof -
  obtain r tr where i: "FastResume_init env p = (r, tr)"
    by (cases "FastResume_init env p") auto
  with assms obtain e where "r = Inl e" "caught e"
    by (cases r) (auto simp: malformed_file_def)
  with i show thesis using that by blast
qed

lemma valid_not_malformed: "valid_file env p \<Longrightarrow> \<not> malformed_file env p"
  by (auto simp: valid_file_def malformed_file_def split: sum.splits)

lemma malformed_entries_Cons:
  "malformed_entries env d (f # files) =
     (if endswith f ''.fastresume'' \<and> malformed_file env (join d f) then [f] else [])
     @ malformed_entries env d files"
  by (simp add: malformed_entries_def)

lemma discover_files_skip:
  assumes "\<forall>f\<in>set files. endswith f ''.fastresume''
             \<longrightarrow> valid_file env (join d f) \<or> malformed_file env (join d f)"
  shows "fst (discover_files env d ex False files) = None
       \<and> warnings (snd (discover_files env d ex False files))
           = map (\<lambda>f. ''Unable to parse '' @ f @ ''. Skipping!'') (malformed_entries env d files)"
  using assms
proof (induction files)
  case Nil
  show ?case by (simp add: malformed_entries_def)
next
  case (Cons f files)
  then have IH: "fst (discover_files env d ex False files) = None
       \<and> warnings (snd (discover_files env d ex False files))
           = map (\<lambda>f. ''Unable to parse '' @ f @ ''. Skipping!'') (malformed_entries env d files)"
    by simp
  show ?case
  proof (cases "endswith f ''.fastresume''")
    case False
    with IH show ?thesis by (simp add: malformed_entries_Cons)
  next
    case True
    with Cons.prems consider (v) "valid_file env (join d f)" | (m) "malformed_file env (join d f)"
      by auto
    then show ?thesis
    proof cases
      case v
      then obtain fr tr s q where i: "FastResume_init env (join d f) = (Inr fr, tr)"
        and s: "save_path fr = Inr (BStr s)" and q: "qbt_save_path fr = Inr (BStr q)"
        by (rule valid_file_constructs)
      have w: "warnings tr = []" using FastResume_init_quiet(2)[of env "join d f"] i by simp
      have nm: "\<not> malformed_file env (join d f)" using v by (rule valid_not_malformed)
      show ?thesis using True i w nm IH
        by (simp add: has_existing_path_strings[OF s q] malformed_entries_Cons after_simps
            warnings_append split: bool.splits)
    next
      case m
      then obtain e tr where i: "FastResume_init env (join d f) = (Inl e, tr)" and c: "caught e"
        by (rule malformed_file_raises)
      have w: "warnings tr = []" using FastResume_init_quiet(2)[of env "join d f"] i by simp
      show ?thesis using True i c w m IH
        by (simp add: malformed_entries_Cons after_simps warnings_append)
    qed
  qed
qed

lemma discover_files_fail_fast:
  assumes "\<forall>f\<in>set pre. endswith f ''.fastresume'' \<longrightarrow> valid_file env (join d f)"
    and "endswith bad ''.fastresume''"
    and "FastResume_init env (join d bad) = (Inl e, tr)" and "caught e"
  shows "fst (discover_files env d ex True (pre @ bad # post)) = Some e
       \<and> yielded (snd (discover_files env d ex True (pre @ bad # post))) = matching env d ex pre"
  using assms(1)
proof (induction pre)
  case Nil
  have q: "yielded tr = []" using FastResume_init_quiet(1)[of env "join d bad"] assms(3) by simp
  show ?case using assms(2,3,4) q by (simp add: matching_Nil yielded_append)
next
  case (Cons f pre)
  then have IH: "fst (discover_files env d ex True (pre @ bad # post)) = Some e
       \<and> yielded (snd (discover_files env d ex True (pre @ bad # post))) = matching env d ex pre"
    by simp
  show ?case
  proof (cases "endswith f ''.fastresume''")
    case False
    with IH show ?thesis by (simp add: matching_Cons)
  next
    case True
    with Cons.prems have "valid_file env (join d f)" by simp
    then obtain fr tr' s q where i: "FastResume_init env (join d f) = (Inr fr, tr')"
      and s: "save_path fr = Inr (BStr s)" and q: "qbt_save_path fr = Inr (BStr q)"
      by (rule valid_file_constructs)
    have y: "yielded tr' = []" using FastResume_init_quiet(1)[of env "join d f"] i by simp
    show ?thesis using True i y IH
      by (simp add: has_existing_path_strings[OF s q] matching_Cons after_simps yielded_append
          split: bool.splits)
  qed
qed




lemmas discover_eval =
  discover_relevant_fast_resume_def listdir_def FastResume_init_def exists_def isfile_def
  bread_def join_def startswith_def endswith_def suffix_to_prefix has_existing_path_def
  save_path_def qbt_save_path_def after_def matching_def malformed_entries_def
  valid_file_def malformed_file_def Let_def bt_env_def bt_nodes_def bt_env_no_zip_def movies_def
  twice_def

section \<open>Which records the discovery yields (C7)\<close>




section \<open>Skipping and failing fast (C3)\<close>

text \<open>
  The part of the claim that the code keeps. Take a directory in which every entry
  with the suffix is a valid or a malformed resume file. Without \<open>raise_on_error\<close>,
  the discovery ends without an exception, yields exactly the matching records of
  the valid files, in order, and logs one warning for each malformed file, in order.
  With \<open>raise_on_error\<close>, at the first malformed file of the listing the discovery
  raises the error of that file's construction, having yielded the matching records
  of the entries before it and nothing after.
\<close>

lemma discover_of_valid_and_malformed:
  assumes "nodes env d = Some (Dir files)"
    and "\<forall>f\<in>set files. endswith f ''.fastresume''
           \<longrightarrow> valid_file env (join d f) \<or> malformed_file env (join d f)"
  shows "fst (discover_relevant_fast_resume env d ex False) = None
       \<and> yielded (snd (discover_relevant_fast_resume env d ex False)) = matching env d ex files
       \<and> warnings (snd (discover_relevant_fast_resume env d ex False))
           = map (\<lambda>f. ''Unable to parse '' @ f @ ''. Skipping!'') (malformed_entries env d files)
       \<and> (\<forall>pre bad post.
             files = pre @ bad # post \<and> endswith bad ''.fastresume''
             \<and> malformed_file env (join d bad)
             \<and> (\<forall>f\<in>set pre. endswith f ''.fastresume'' \<longrightarrow> valid_file env (join d f))
           \<longrightarrow> (\<exists>e. fst (FastResume_init env (join d bad)) = Inl e
                    \<and> fst (discover_relevant_fast_resume env d ex True) = Some e)
               \<and> yielded (snd (discover_relevant_fast_resume env d ex True))
                   = matching env d ex pre)"
proof -
  have l: "discover_relevant_fast_resume env d ex roe = discover_files env d ex roe files" for roe
    using assms(1) by (simp add: discover_relevant_fast_resume_def listdir_def)
  have s: "fst (discover_files env d ex False files) = None
       \<and> warnings (snd (discover_files env d ex False files))
           = map (\<lambda>f. ''Unable to parse '' @ f @ ''. Skipping!'') (malformed_entries env d files)"
    by (rule discover_files_skip[OF assms(2)])
  then have y: "yielded (snd (discover_files env d ex False files)) = matching env d ex files"
    using discover_files_yields[of env d ex False files] by simp
  have ff: "(\<exists>e. fst (FastResume_init env (join d bad)) = Inl e
                    \<and> fst (discover_files env d ex True files) = Some e)
               \<and> yielded (snd (discover_files env d ex True files)) = matching env d ex pre"
    if "files = pre @ bad # post" "endswith bad ''.fastresume''"
      "malformed_file env (join d bad)"
      "\<forall>f\<in>set pre. endswith f ''.fastresume'' \<longrightarrow> valid_file env (join d f)"
    for pre bad post
  proof -
    from that(3) obtain e tr where i: "FastResume_init env (join d bad) = (Inl e, tr)"
      and c: "caught e"
      by (rule malformed_file_raises)
    from discover_files_fail_fast[OF that(4) that(2) i c, of ex post] i
    show ?thesis unfolding that(1) by simp
  qed
  show ?thesis unfolding l using s y ff by blast
qed

text \<open>
  The directory \<open>/bt\<close> is of that kind: two valid files, two malformed ones, and the
  first malformed one after the first valid one.
\<close>

lemma discover_of_valid_and_malformed_example:
  "nodes bt_env ''/bt''
     = Some (Dir [''a.fastresume'', ''b.fastresume'', ''notes.txt'', ''c.fastresume'', ''d.fastresume''])
   \<and> valid_file bt_env ''/bt/a.fastresume'' \<and> malformed_file bt_env ''/bt/b.fastresume''
   \<and> malformed_file bt_env ''/bt/c.fastresume'' \<and> valid_file bt_env ''/bt/d.fastresume''
   \<and> fst (discover_relevant_fast_resume bt_env ''/bt'' ''/'' False) = None
   \<and> yielded (snd (discover_relevant_fast_resume bt_env ''/bt'' ''/'' False)) = [movies, twice]
   \<and> warnings (snd (discover_relevant_fast_resume bt_env ''/bt'' ''/'' False))
       = [''Unable to parse b.fastresume. Skipping!'', ''Unable to parse c.fastresume. Skipping!'']
   \<and> fst (discover_relevant_fast_resume bt_env ''/bt'' ''/'' True) = Some BencodeDecodeError
   \<and> yielded (snd (discover_relevant_fast_resume bt_env ''/bt'' ''/'' True)) = [movies]"
proof -
  let ?files = "[''a.fastresume'', ''b.fastresume'', ''notes.txt'', ''c.fastresume'', ''d.fastresume'']"
  have h: "nodes bt_env ''/bt'' = Some (Dir ?files)"
    by (simp add: bt_env_def bt_nodes_def)
  have va: "valid_file bt_env ''/bt/a.fastresume''" and vd: "valid_file bt_env ''/bt/d.fastresume''"
    and mb: "malformed_file bt_env ''/bt/b.fastresume''"
    and mc: "malformed_file bt_env ''/bt/c.fastresume''"
    by (simp_all add: discover_eval)
  have j: "join ''/bt'' ''a.fastresume'' = ''/bt/a.fastresume''"
    "join ''/bt'' ''b.fastresume'' = ''/bt/b.fastresume''"
    "join ''/bt'' ''c.fastresume'' = ''/bt/c.fastresume''"
    "join ''/bt'' ''d.fastresume'' = ''/bt/d.fastresume''"
    by (simp_all add: join_def startswith_def endswith_def suffix_to_prefix)
  have n: "\<not> endswith ''notes.txt'' ''.fastresume''"
    by (simp add: endswith_def suffix_to_prefix)
  have e: "endswith ''b.fastresume'' ''.fastresume''"
    by (simp add: endswith_def suffix_to_prefix)
  have a: "\<forall>f\<in>set ?files. endswith f ''.fastresume''
           \<longrightarrow> valid_file bt_env (join ''/bt'' f) \<or> malformed_file bt_env (join ''/bt'' f)"
    using va vd mb mc n by (simp add: j)
  have m: "matching bt_env ''/bt'' ''/'' ?files = [movies, twice]"
    by (simp add: discover_eval)
  have mp: "matching bt_env ''/bt'' ''/'' [''a.fastresume''] = [movies]"
    by (simp add: discover_eval)
  have me: "malformed_entries bt_env ''/bt'' ?files = [''b.fastresume'', ''c.fastresume'']"
    using va vd mb mc n
    by (simp add: malformed_entries_def j valid_not_malformed endswith_def suffix_to_prefix)
  have ib: "fst (FastResume_init bt_env (join ''/bt'' ''b.fastresume'')) = Inl BencodeDecodeError"
    by (simp add: discover_eval)
  have pre: "?files = [''a.fastresume''] @ ''b.fastresume'' # [''notes.txt'', ''c.fastresume'', ''d.fastresume'']
       \<and> endswith ''b.fastresume'' ''.fastresume''
       \<and> malformed_file bt_env (join ''/bt'' ''b.fastresume'')
       \<and> (\<forall>f\<in>set [''a.fastresume'']. endswith f ''.fastresume''
              \<longrightarrow> valid_file bt_env (join ''/bt'' f))"
    using va mb e by (simp add: j)
  note t = discover_of_valid_and_malformed[OF h a, of "''/''"]
  from t have 1: "fst (discover_relevant_fast_resume bt_env ''/bt'' ''/'' False) = None"
    and 2: "yielded (snd (discover_relevant_fast_resume bt_env ''/bt'' ''/'' False)) = [movies, twice]"
    and 3: "warnings (snd (discover_relevant_fast_resume bt_env ''/bt'' ''/'' False))
       = [''Unable to parse b.fastresume. Skipping!'', ''Unable to parse c.fastresume. Skipping!'']"
    unfolding m me by simp_all
  from t pre have "(\<exists>e. fst (FastResume_init bt_env (join ''/bt'' ''b.fastresume'')) = Inl e
                    \<and> fst (discover_relevant_fast_resume bt_env ''/bt'' ''/'' True) = Some e)
               \<and> yielded (snd (discover_relevant_fast_resume bt_env ''/bt'' ''/'' True))
                   = matching bt_env ''/bt'' ''/'' [''a.fastresume'']"
    by blast
  then have 4: "fst (discover_relevant_fast_resume bt_env ''/bt'' ''/'' True) = Some BencodeDecodeError"
    and 5: "yielded (snd (discover_relevant_fast_resume bt_env ''/bt'' ''/'' True)) = [movies]"
    unfolding ib mp by auto
  show ?thesis using h va vd mb mc 1 2 3 4 5 by simp
qed

text \<open>
  C3 fails on the code. The claim, like the docstring of \<^verbatim>\<open>run\<close> for
  \<^verbatim>\<open>skip_bad_files\<close> (skip the files that cannot be read successfully), has every bad
  resume file logged and skipped without \<open>raise_on_error\<close>, no exception leaving the
  discovery, and the valid matching records yielded. In the directories \<open>/odd\<close> and
  \<open>/odd2\<close> the second file is a valid record that contains the existing path, and the
  first file cannot be read as a record. Without \<open>raise_on_error\<close> the discovery
  raises \<^verbatim>\<open>TypeError\<close> at the first file, in \<open>/odd\<close> from the constructor and in
  \<open>/odd2\<close> from the test of the existing path: no warning is logged, nothing is
  yielded, and the valid file is never reached.
\<close>

theorem discover_skip_mode_exception_escapes:
  "discover_relevant_fast_resume odd_env ''/odd'' ''/'' False
     = (Some TypeError, [Log DEBUG ''Loading Fast Resume: /odd/n.fastresume''])
   \<and> warnings (snd (discover_relevant_fast_resume odd_env ''/odd'' ''/'' False)) = []
   \<and> yielded (snd (discover_relevant_fast_resume odd_env ''/odd'' ''/'' False)) = []
   \<and> discover_relevant_fast_resume odd_env ''/odd2'' ''/'' False
       = (Some TypeError,
          [Log DEBUG ''Loading Fast Resume: /odd2/b.fastresume'',
           Log DEBUG ''Fast Resume (/odd2/b.fastresume) Init Complete.''])
   \<and> warnings (snd (discover_relevant_fast_resume odd_env ''/odd2'' ''/'' False)) = []
   \<and> yielded (snd (discover_relevant_fast_resume odd_env ''/odd2'' ''/'' False)) = []"
  by (simp add: discover_relevant_fast_resume_def listdir_def FastResume_init_def exists_def
      isfile_def bread_def join_def startswith_def endswith_def suffix_to_prefix
      has_existing_path_def save_path_def qbt_save_path_def Let_def
      odd_env_def odd_nodes_def movies_def)

text \<open>
  The second file of each of the two directories is a valid resume file, and the
  existing path occurs in its save path: a discovery that skipped the first file
  would yield it.
\<close>

lemma odd_second_file_valid_and_matching:
  "valid_file odd_env ''/odd/a.fastresume''
   \<and> fst (FastResume_init odd_env ''/odd/a.fastresume'')
       = Inr \<lparr>file_path = ''/odd/a.fastresume'', data = data movies\<rparr>
   \<and> has_existing_path ''/'' \<lparr>file_path = ''/odd/a.fastresume'', data = data movies\<rparr> = Inr True
   \<and> valid_file odd_env ''/odd2/a.fastresume''
   \<and> fst (FastResume_init odd_env ''/odd2/a.fastresume'')
       = Inr \<lparr>file_path = ''/odd2/a.fastresume'', data = data movies\<rparr>
   \<and> has_existing_path ''/'' \<lparr>file_path = ''/odd2/a.fastresume'', data = data movies\<rparr> = Inr True
   \<and> \<not> valid_file odd_env ''/odd/n.fastresume'' \<and> \<not> malformed_file odd_env ''/odd/n.fastresume''
   \<and> \<not> valid_file odd_env ''/odd2/b.fastresume'' \<and> \<not> malformed_file odd_env ''/odd2/b.fastresume''"
  by (simp add: FastResume_init_def exists_def isfile_def bread_def
      has_existing_path_def save_path_def qbt_save_path_def valid_file_def malformed_file_def
      Let_def odd_env_def odd_nodes_def movies_def)

section \<open>The preconditions of the batch run (C4)\<close>

lemma archive_files_steps:
  "filter (\<lambda>x. \<not> is_archive_step x) (snd (archive_files env a d files)) = []"
  by (induction files) (simp_all add: Let_def after_simps)

lemma backup_folder_steps:
  "filter (\<lambda>x. \<not> is_archive_step x) (snd (backup_folder env d a)) = []"
proof (cases "zip_open env a")
  case (Some e)
  then show ?thesis by (simp add: backup_folder_def)
next
  case None
  show ?thesis
  proof (cases "listdir env d")
    case (Inl e)
    with None show ?thesis by (simp add: backup_folder_def)
  next
    case (Inr files)
    obtain r tr where f: "archive_files env a d files = (r, tr)"
      by (cases "archive_files env a d files") auto
    have "filter (\<lambda>x. \<not> is_archive_step x) tr = []"
      using archive_files_steps[of env a d files] f by simp
    with None Inr f show ?thesis
      by (cases r) (simp_all add: backup_folder_def)
  qed
qed

text \<open>
  C4. If the source directory does not exist or is not a directory, \<open>run\<close> raises
  \<^verbatim>\<open>NotADirectoryError\<close> and has no effect at all. If the directory is there, a
  backup is asked for and \<open>backup_folder\<close> raises, \<open>run\<close> raises the same error and its
  effects are those of \<open>backup_folder\<close>, all of them steps of the archive: no record
  is constructed or yielded, no thread is started, no file of a record is written.
\<close>
theorem run_directory_preconditions:
  "(\<not> exists env bt_backup_path \<or> \<not> isdir env bt_backup_path
      \<longrightarrow> run env now bt_backup_path existing_path new_path target_os create_backup skip_bad_files
            = (Some (NotADirectoryError bt_backup_path), []))
   \<and> (\<forall>e tr. exists env bt_backup_path \<and> isdir env bt_backup_path \<and> create_backup
          \<and> backup_folder env bt_backup_path
                (join (dirname bt_backup_path) (''fastresume_backup'' @ now @ ''.zip''))
              = (Some e, tr)
      \<longrightarrow> run env now bt_backup_path existing_path new_path target_os create_backup skip_bad_files
            = (Some e, tr)
          \<and> filter (\<lambda>x. \<not> is_archive_step x) tr = [])"
proof (intro conjI impI allI)
  assume "\<not> exists env bt_backup_path \<or> \<not> isdir env bt_backup_path"
  then show "run env now bt_backup_path existing_path new_path target_os create_backup skip_bad_files
            = (Some (NotADirectoryError bt_backup_path), [])"
    by (auto simp: run_def)
next
  fix e tr
  assume a: "exists env bt_backup_path \<and> isdir env bt_backup_path \<and> create_backup
          \<and> backup_folder env bt_backup_path
                (join (dirname bt_backup_path) (''fastresume_backup'' @ now @ ''.zip''))
              = (Some e, tr)"
  then show "run env now bt_backup_path existing_path new_path target_os create_backup skip_bad_files
            = (Some e, tr)"
    by (simp add: run_def)
  from a backup_folder_steps[of env bt_backup_path
      "join (dirname bt_backup_path) (''fastresume_backup'' @ now @ ''.zip'')"]
  show "filter (\<lambda>x. \<not> is_archive_step x) tr = []" by simp
qed

lemmas run_eval =
  run_def backup_folder_def exists_def isdir_def listdir_def dirname_def join_def
  startswith_def endswith_def suffix_to_prefix Let_def bt_env_def bt_nodes_def
  bt_env_no_zip_def

text \<open>
  C4 on a directory that does not exist, and on the directory \<open>/bt\<close> when the zip
  file cannot be opened.
\<close>

theorem run_directory_preconditions_witness:
  "\<not> exists bt_env ''/nope''
   \<and> exists bt_env_no_zip ''/bt'' \<and> isdir bt_env_no_zip ''/bt''
   \<and> backup_folder bt_env_no_zip ''/bt''
         (join (dirname ''/bt'') (''fastresume_backup'' @ ''20260101000000'' @ ''.zip''))
       = (Some OSError,
          [Log INFO ''Creating Archive /fastresume_backup20260101000000.zip ...''])
   \<and> run bt_env ''20260101000000'' ''/nope'' ''/mnt/old'' ''/mnt/new'' None True True
       = (Some (NotADirectoryError ''/nope''), [])
   \<and> run bt_env_no_zip ''20260101000000'' ''/bt'' ''/mnt/old'' ''/mnt/new'' None True True
       = (Some OSError,
          [Log INFO ''Creating Archive /fastresume_backup20260101000000.zip ...''])"
proof -
  have n: "\<not> exists bt_env ''/nope''" by (simp add: run_eval)
  have d: "exists bt_env_no_zip ''/bt''" "isdir bt_env_no_zip ''/bt''"
    by (simp_all add: run_eval)
  have b: "backup_folder bt_env_no_zip ''/bt''
         (join (dirname ''/bt'') (''fastresume_backup'' @ ''20260101000000'' @ ''.zip''))
       = (Some OSError,
          [Log INFO ''Creating Archive /fastresume_backup20260101000000.zip ...''])"
    by (simp add: run_eval)
  from run_directory_preconditions[of bt_env "''/nope''" "''20260101000000''" "''/mnt/old''"
      "''/mnt/new''" None True True] n
  have 1: "run bt_env ''20260101000000'' ''/nope'' ''/mnt/old'' ''/mnt/new'' None True True
       = (Some (NotADirectoryError ''/nope''), [])"
    by blast
  from run_directory_preconditions[of bt_env_no_zip "''/bt''" "''20260101000000''" "''/mnt/old''"
      "''/mnt/new''" None True True] d b
  have 2: "run bt_env_no_zip ''20260101000000'' ''/bt'' ''/mnt/old'' ''/mnt/new'' None True True
       = (Some OSError,
          [Log INFO ''Creating Archive /fastresume_backup20260101000000.zip ...''])"
    by blast
  show ?thesis using n d b 1 2 by simp
qed

end
